theory Spec2Isabelle
  imports Complex_Main "HOL-Library.Word"
begin

unbundle bit_operations_syntax

chapter \<open>Interview coach: live-session orchestration and audio helpers\<close>

text \<open>
  A shallow embedding of \<^verbatim>\<open>src/utils/audioUtils.ts\<close>, \<^verbatim>\<open>src/types.ts\<close> and the two
  variants of \<^verbatim>\<open>src/components/InterviewScreen.tsx\<close> (the continuous voice screen and the
  push-to-talk screen). JavaScript strings are sequences of UTF-16 code units, typed
  arrays are lists of machine words, React state and refs are fields of a state record,
  and every call on a browser resource is appended to an effect trace kept in that record.
\<close>

section \<open>Data\<close>

subsection \<open>JavaScript values\<close>

type_synonym byte = "8 word"
type_synonym int16 = "16 word"
type_synonym code_unit = "16 word"
type_synonym jsstring = "code_unit list"

datatype js_error =
    InvalidCharacterError
  | RangeError
  | NotSupportedError
  | InvalidStateError
  | IndexSizeError
  | GenericError

text \<open>An ASCII literal as a JavaScript string.\<close>

definition utf16 :: "string \<Rightarrow> jsstring" where
  "utf16 s = map (\<lambda>c. of_nat (of_char c)) s"

text \<open>
  A JavaScript number as far as the audio code needs it: a finite value or NaN. Every
  finite value that occurs (a 16-bit integer divided by \<open>32768\<close>, a float sample times
  \<open>32768\<close>) is a dyadic rational that a 32-bit float holds exactly, so the model computes
  with rationals.
\<close>

datatype js_number = Num rat | NaN

subsection \<open>\<^verbatim>\<open>src/types.ts\<close>\<close>

datatype InterviewType = BEHAVIORAL | TECHNICAL | SYSTEM_DESIGN

record InterviewConfig =
  resumeText :: jsstring
  jobDescriptionText :: jsstring
  interviewType :: InterviewType

datatype speaker = USER | AI

record TranscriptMessage =
  speaker :: speaker
  msg_text :: jsstring

record AnswerQuality =
  aqScore :: int
  aqFeedback :: jsstring
  example :: jsstring

record CommunicationSkills =
  csScore :: int
  csFeedback :: jsstring
  fillerWords :: int
  pace :: jsstring

record ContentFeedback =
  cfScore :: int
  cfFeedback :: jsstring
  missedOpportunities :: "jsstring list"

record FeedbackReport =
  overallScore :: int
  answerQuality :: AnswerQuality
  communicationSkills :: CommunicationSkills
  contentFeedback :: ContentFeedback

section \<open>Browser built-ins used by the code\<close>

subsection \<open>\<^verbatim>\<open>btoa\<close> and \<^verbatim>\<open>atob\<close>\<close>

text \<open>
  The base64 alphabet of RFC 4648: the code unit of a sextet, and the sextet of a code
  unit.
\<close>

definition b64_code :: "nat \<Rightarrow> nat" where
  "b64_code n =
     (if n < 26 then 65 + n
      else if n < 52 then 97 + (n - 26)
      else if n < 62 then 48 + (n - 52)
      else if n = 62 then 43
      else 47)"

definition b64_char :: "nat \<Rightarrow> code_unit" where
  "b64_char n = of_nat (b64_code n)"

definition b64_val :: "code_unit \<Rightarrow> nat option" where
  "b64_val c =
     (let k = unat c
      in if 65 \<le> k \<and> k \<le> 90 then Some (k - 65)
         else if 97 \<le> k \<and> k \<le> 122 then Some (k - 97 + 26)
         else if 48 \<le> k \<and> k \<le> 57 then Some (k - 48 + 52)
         else if k = 43 then Some 62
         else if k = 47 then Some 63
         else None)"

text \<open>
  Encoding: three bytes form a 24-bit group that is cut into four sextets; a last group
  of two bytes (one byte) is padded with zero bits to three (two) sextets and completed
  with one (two) \<^verbatim>\<open>=\<close>, code unit 61.
\<close>

fun b64_encode :: "byte list \<Rightarrow> jsstring" where
  "b64_encode (a # b # c # rest) =
     (let n = unat a * 65536 + unat b * 256 + unat c
      in [b64_char (n div 262144), b64_char (n div 4096 mod 64),
          b64_char (n div 64 mod 64), b64_char (n mod 64)] @ b64_encode rest)"
| "b64_encode [a, b] =
     (let n = (unat a * 256 + unat b) * 4
      in [b64_char (n div 4096), b64_char (n div 64 mod 64), b64_char (n mod 64), 61])"
| "b64_encode [a] =
     (let n = unat a * 16
      in [b64_char (n div 64), b64_char (n mod 64), 61, 61])"
| "b64_encode [] = []"

text \<open>
  \<^verbatim>\<open>btoa(s)\<close> throws \<^verbatim>\<open>InvalidCharacterError\<close> when a code unit of \<open>s\<close> is above
  \<open>0xFF\<close>, and otherwise encodes the bytes that the code units stand for.
\<close>

definition btoa :: "jsstring \<Rightarrow> js_error + jsstring" where
  "btoa s = (if \<exists>c \<in> set s. 255 < c then Inl InvalidCharacterError
             else Inr (b64_encode (map ucast s)))"

text \<open>
  \<^verbatim>\<open>atob(s)\<close> is the forgiving base64 decoder of the HTML standard: ASCII whitespace is
  removed; when the length is then a multiple of four, one or two trailing \<^verbatim>\<open>=\<close> are
  removed; a length of 1 modulo 4 and any code unit outside the alphabet are failures;
  the sextets are collected 24 bits at a time, and a rest of 12 or 18 bits gives one or
  two bytes, the surplus bits being dropped.
\<close>

definition ascii_whitespace :: "code_unit \<Rightarrow> bool" where
  "ascii_whitespace c \<longleftrightarrow> c = 9 \<or> c = 10 \<or> c = 12 \<or> c = 13 \<or> c = 32"

definition strip_padding :: "jsstring \<Rightarrow> jsstring" where
  "strip_padding s =
     (if length s mod 4 = 0
      then (case rev s of
              e1 # e2 # r \<Rightarrow> if e1 = 61 \<and> e2 = 61 then rev r
                              else if e1 = 61 then rev (e2 # r) else s
            | [e1] \<Rightarrow> if e1 = 61 then [] else s
            | [] \<Rightarrow> s)
      else s)"

fun sextets :: "jsstring \<Rightarrow> nat list option" where
  "sextets [] = Some []"
| "sextets (c # cs) =
     (case b64_val c of
        None \<Rightarrow> None
      | Some n \<Rightarrow> (case sextets cs of None \<Rightarrow> None | Some ns \<Rightarrow> Some (n # ns)))"

fun b64_decode :: "nat list \<Rightarrow> byte list" where
  "b64_decode (s1 # s2 # s3 # s4 # rest) =
     (let n = ((s1 * 64 + s2) * 64 + s3) * 64 + s4
      in [of_nat (n div 65536), of_nat (n div 256 mod 256), of_nat (n mod 256)]
         @ b64_decode rest)"
| "b64_decode [s1, s2, s3] =
     (let n = ((s1 * 64 + s2) * 64 + s3) div 4
      in [of_nat (n div 256), of_nat (n mod 256)])"
| "b64_decode [s1, s2] =
     (let n = (s1 * 64 + s2) div 16 in [of_nat n])"
| "b64_decode _ = []"

definition atob :: "jsstring \<Rightarrow> js_error + jsstring" where
  "atob s =
     (let d = strip_padding (filter (\<lambda>c. \<not> ascii_whitespace c) s)
      in if length d mod 4 = 1 then Inl InvalidCharacterError
         else (case sextets d of
                 None \<Rightarrow> Inl InvalidCharacterError
               | Some ns \<Rightarrow> Inr (map ucast (b64_decode ns))))"

text \<open>\<^verbatim>\<open>String.fromCharCode\<close> on a byte value.\<close>

definition fromCharCode :: "byte \<Rightarrow> code_unit" where
  "fromCharCode b = ucast b"

subsection \<open>\<^verbatim>\<open>String.prototype.trim\<close>\<close>

text \<open>
  The code units that ECMAScript counts as white space or line terminator: TAB, LF, VT,
  FF, CR, SPACE, NBSP, the space separators U+1680, U+2000 to U+200A, U+202F, U+205F
  and U+3000, the separators U+2028 and U+2029, and the byte order mark U+FEFF.
  \<^verbatim>\<open>trim\<close> removes them from both ends.
\<close>

definition js_whitespace :: "code_unit \<Rightarrow> bool" where
  "js_whitespace c \<longleftrightarrow>
     c = 0x09 \<or> c = 0x0A \<or> c = 0x0B \<or> c = 0x0C \<or> c = 0x0D \<or> c = 0x20 \<or> c = 0xA0
     \<or> c = 0x1680 \<or> (0x2000 \<le> c \<and> c \<le> 0x200A) \<or> c = 0x2028 \<or> c = 0x2029
     \<or> c = 0x202F \<or> c = 0x205F \<or> c = 0x3000 \<or> c = 0xFEFF"

definition trim :: "jsstring \<Rightarrow> jsstring" where
  "trim s = rev (dropWhile js_whitespace (rev (dropWhile js_whitespace s)))"

text \<open>A string is truthy when it is not empty.\<close>

definition truthy :: "jsstring \<Rightarrow> bool" where
  "truthy s \<longleftrightarrow> s \<noteq> []"

subsection \<open>Storing a number in an \<^verbatim>\<open>Int16Array\<close>\<close>

text \<open>
  The conversion \<^verbatim>\<open>ToInt16\<close>: the number is truncated towards zero and reduced modulo
  \<open>2\<^sup>1\<^sup>6\<close>; the word is read as two's complement. The two bytes of the word in the
  underlying buffer are little-endian.
\<close>

definition ToInt16 :: "rat \<Rightarrow> int16" where
  "ToInt16 x = word_of_int (if 0 \<le> x then \<lfloor>x\<rfloor> else \<lceil>x\<rceil>)"

definition int16_bytes :: "int16 \<Rightarrow> byte list" where
  "int16_bytes w = [ucast w, ucast (drop_bit 8 w)]"

section \<open>\<^verbatim>\<open>src/utils/audioUtils.ts\<close>\<close>

subsection \<open>\<^verbatim>\<open>encode\<close> and \<^verbatim>\<open>decode\<close>\<close>

text \<open>
  The loop of \<^verbatim>\<open>encode\<close>: \<^verbatim>\<open>binary += String.fromCharCode(bytes[i])\<close> for
  \<open>i\<close> from 0 below \<^verbatim>\<open>bytes.byteLength\<close>.
\<close>

function encode_loop :: "byte list \<Rightarrow> nat \<Rightarrow> jsstring \<Rightarrow> jsstring" where
  "encode_loop bytes i binary =
     (if i < length bytes
      then encode_loop bytes (i + 1) (binary @ [fromCharCode (bytes ! i)])
      else binary)"
  by pat_completeness auto
termination
  by (relation "measure (\<lambda>(bytes, i, binary). length bytes - i)") auto

declare encode_loop.simps [simp del]

definition encode :: "byte list \<Rightarrow> js_error + jsstring" where
  "encode bytes = btoa (encode_loop bytes 0 [])"

text \<open>
  The loop of \<^verbatim>\<open>decode\<close>: \<^verbatim>\<open>bytes[i] = binaryString.charCodeAt(i)\<close> on a
  zero-filled \<^verbatim>\<open>Uint8Array\<close> of the string's length; the store keeps the low eight bits.
\<close>

function decode_loop :: "jsstring \<Rightarrow> nat \<Rightarrow> byte list \<Rightarrow> byte list" where
  "decode_loop binaryString i bytes =
     (if i < length binaryString
      then decode_loop binaryString (i + 1) (bytes[i := ucast (binaryString ! i)])
      else bytes)"
  by pat_completeness auto
termination
  by (relation "measure (\<lambda>(binaryString, i, bytes). length binaryString - i)") auto

declare decode_loop.simps [simp del]

definition decode :: "jsstring \<Rightarrow> js_error + byte list" where
  "decode base64 =
     (case atob base64 of
        Inl e \<Rightarrow> Inl e
      | Inr binaryString \<Rightarrow>
          Inr (decode_loop binaryString 0 (replicate (length binaryString) 0)))"

subsection \<open>\<^verbatim>\<open>decodeAudioData\<close>\<close>

text \<open>
  \<^verbatim>\<open>new Int16Array(data.buffer)\<close> views the bytes as little-endian 16-bit integers and
  throws \<^verbatim>\<open>RangeError\<close> when the byte length is odd. The array \<open>data\<close> covers its whole
  buffer, as the result of \<^verbatim>\<open>decode\<close> does.
\<close>

fun int16_view :: "byte list \<Rightarrow> int16 list" where
  "int16_view (lo # hi # rest) = (ucast lo + 256 * ucast hi) # int16_view rest"
| "int16_view _ = []"

definition new_Int16Array :: "byte list \<Rightarrow> js_error + int16 list" where
  "new_Int16Array data =
     (if odd (length data) then Inl RangeError else Inr (int16_view data))"

text \<open>
  An \<^verbatim>\<open>AudioBuffer\<close>, and an audio context: what it supports and its
  \<^verbatim>\<open>state\<close>. \<^verbatim>\<open>createBuffer\<close> follows the
  Web Audio API: \<^verbatim>\<open>NotSupportedError\<close> when the channel count or the length is zero or
  an argument is outside the supported range, else a zero-filled buffer. The length
  argument is an \<^verbatim>\<open>unsigned long\<close>: a fractional number is truncated and reduced modulo
  \<open>2\<^sup>3\<^sup>2\<close>.
\<close>

record AudioBuffer =
  numberOfChannels :: nat
  bufferLength :: nat
  sampleRate :: rat
  channels :: "js_number list list"

datatype ctx_state = Suspended | Running | Closed

record AudioContext =
  maxChannels :: nat
  minSampleRate :: rat
  maxSampleRate :: rat
  ctxState :: ctx_state

definition duration :: "AudioBuffer \<Rightarrow> rat" where
  "duration b = of_nat (bufferLength b) / sampleRate b"

definition to_unsigned_long :: "rat \<Rightarrow> nat" where
  "to_unsigned_long x = nat ((if 0 \<le> x then \<lfloor>x\<rfloor> else \<lceil>x\<rceil>) mod 2 ^ 32)"

definition createBuffer :: "AudioContext \<Rightarrow> nat \<Rightarrow> nat \<Rightarrow> rat \<Rightarrow> js_error + AudioBuffer" where
  "createBuffer ctx numChannels len rate =
     (if numChannels = 0 \<or> maxChannels ctx < numChannels \<or> len = 0
         \<or> rate < minSampleRate ctx \<or> maxSampleRate ctx < rate \<or> rate \<le> 0
      then Inl NotSupportedError
      else Inr \<lparr>numberOfChannels = numChannels, bufferLength = len, sampleRate = rate,
                channels = replicate numChannels (replicate len (Num 0))\<rparr>)"

definition getChannelData :: "AudioBuffer \<Rightarrow> nat \<Rightarrow> js_error + js_number list" where
  "getChannelData b channel =
     (if channel < numberOfChannels b \<and> channel < length (channels b)
      then Inr (channels b ! channel) else Inl IndexSizeError)"

text \<open>
  \<^verbatim>\<open>dataInt16[k] / 32768.0\<close>: a read past the end of the typed array is
  \<^verbatim>\<open>undefined\<close>, and the quotient is then NaN.
\<close>

definition sample_at :: "int16 list \<Rightarrow> nat \<Rightarrow> js_number" where
  "sample_at dataInt16 k =
     (if k < length dataInt16 then Num (of_int (sint (dataInt16 ! k)) / 32768) else NaN)"

text \<open>
  The inner loop, \<^verbatim>\<open>for (let i = 0; i < frameCount; i++)\<close>, where \<open>frameCount\<close> is the
  quotient as a number, not rounded. A store past the end of the channel's
  \<^verbatim>\<open>Float32Array\<close> is ignored, which is what list update does.
\<close>

function fill_channel ::
  "int16 list \<Rightarrow> nat \<Rightarrow> nat \<Rightarrow> rat \<Rightarrow> nat \<Rightarrow> js_number list \<Rightarrow> js_number list" where
  "fill_channel dataInt16 numChannels channel frameCount i channelData =
     (if of_nat i < frameCount
      then fill_channel dataInt16 numChannels channel frameCount (i + 1)
             (channelData[i := sample_at dataInt16 (i * numChannels + channel)])
      else channelData)"
  by pat_completeness auto
termination
proof (relation "measure (\<lambda>(d, n, c, frameCount, i, cd). nat \<lceil>frameCount\<rceil> - i)")
  fix frameCount :: rat and i :: nat
  fix d :: "int16 list" and n c :: nat and cd :: "js_number list"
  assume "of_nat i < frameCount"
  then have "int i < \<lceil>frameCount\<rceil>" by (simp add: less_ceiling_iff)
  then have "i < nat \<lceil>frameCount\<rceil>" by linarith
  then show "((d, n, c, frameCount, i + 1, cd[i := sample_at d (i * n + c)]),
              (d, n, c, frameCount, i, cd))
             \<in> measure (\<lambda>(d, n, c, frameCount, i, cd). nat \<lceil>frameCount\<rceil> - i)"
    by simp
qed simp

declare fill_channel.simps [simp del]

text \<open>The outer loop, \<^verbatim>\<open>for (let channel = 0; channel < numChannels; channel++)\<close>.\<close>

function fill_channels ::
  "int16 list \<Rightarrow> nat \<Rightarrow> rat \<Rightarrow> nat \<Rightarrow> AudioBuffer \<Rightarrow> js_error + AudioBuffer" where
  "fill_channels dataInt16 numChannels frameCount channel buffer =
     (if channel < numChannels
      then (case getChannelData buffer channel of
              Inl e \<Rightarrow> Inl e
            | Inr channelData \<Rightarrow>
                fill_channels dataInt16 numChannels frameCount (channel + 1)
                  (buffer\<lparr>channels := (channels buffer)
                     [channel := fill_channel dataInt16 numChannels channel frameCount 0
                                   channelData]\<rparr>))
      else Inr buffer)"
  by pat_completeness auto
termination
  by (relation "measure (\<lambda>(d, numChannels, f, channel, b). numChannels - channel)") auto

declare fill_channels.simps [simp del]

text \<open>
  \<^verbatim>\<open>decodeAudioData\<close> is an \<^verbatim>\<open>async\<close> function: an exception thrown in its body is the
  rejection of the promise it returns, here \<open>Inl\<close>. With \<open>numChannels = 0\<close> the quotient
  is not a finite number in JavaScript; \<^verbatim>\<open>createBuffer\<close> rejects that channel count
  whatever the length is.
\<close>

definition decodeAudioData ::
  "byte list \<Rightarrow> AudioContext \<Rightarrow> rat \<Rightarrow> nat \<Rightarrow> js_error + AudioBuffer" where
  "decodeAudioData data ctx rate numChannels =
     (case new_Int16Array data of
        Inl e \<Rightarrow> Inl e
      | Inr dataInt16 \<Rightarrow>
          (let frameCount = of_nat (length dataInt16) / of_nat numChannels
           in case createBuffer ctx numChannels (to_unsigned_long frameCount) rate of
                Inl e \<Rightarrow> Inl e
              | Inr buffer \<Rightarrow> fill_channels dataInt16 numChannels frameCount 0 buffer))"

section \<open>\<^verbatim>\<open>src/components/InterviewScreen.tsx\<close>: what both variants share\<close>

text \<open>
  The promise of the live session settles as resolved or as rejected. The calls that the
  screens make on browser resources and on their collaborators are recorded, in order, in
  an effect trace.
\<close>

datatype promise_outcome = Resolved | Rejected

datatype effect =
    TrackStop
  | ProcessorDisconnect
  | SourceDisconnect
  | InputContextClose
  | OutputContextClose
  | PlaybackStop rat
  | SessionClose
  | SendRealtimeInput jsstring
  | PlaybackStart rat rat
  | ChatSend jsstring
  | GenerateReport "TranscriptMessage list"
  | InterviewEnd "TranscriptMessage list" FeedbackReport
  | ConsoleError

text \<open>The calls that release a resource of the live session.\<close>

fun is_release :: "effect \<Rightarrow> bool" where
  "is_release TrackStop = True"
| "is_release ProcessorDisconnect = True"
| "is_release SourceDisconnect = True"
| "is_release InputContextClose = True"
| "is_release OutputContextClose = True"
| "is_release (PlaybackStop when) = True"
| "is_release SessionClose = True"
| "is_release _ = False"

text \<open>
  A message of the live connection, as far as the screens read it: the text of an output
  or input transcription when there is one, the turn-complete flag, and the inline data
  of the first part of the model turn when there is one.
\<close>

record LiveServerMessage =
  outputTranscription :: "jsstring option"
  inputTranscription :: "jsstring option"
  turnComplete :: bool
  audioData :: "jsstring option"

text \<open>
  The frame that \<^verbatim>\<open>onaudioprocess\<close> builds from the captured samples:
  \<^verbatim>\<open>encode(new Uint8Array(new Int16Array(inputData.map(x => x * 32768)).buffer))\<close>.
\<close>

definition pcm_sample :: "rat \<Rightarrow> int16" where
  "pcm_sample x = ToInt16 (x * 32768)"

definition pcmBlob :: "rat list \<Rightarrow> js_error + jsstring" where
  "pcmBlob inputData = encode (concat (map (\<lambda>x. int16_bytes (pcm_sample x)) inputData))"

section \<open>The continuous voice screen\<close>

text \<open>
  React state (\<open>status\<close>, \<open>transcript\<close>, \<open>isMuted\<close>, \<open>isGeneratingReport\<close>), the refs,
  and the effect trace. The effect of \<^verbatim>\<open>useEffect(..., [config])\<close> runs once, after the
  first render; every callback it installs, \<^verbatim>\<open>onaudioprocess\<close> among them, is a closure
  over the variables of that render. \<open>v_effect_isMuted\<close> is the \<open>isMuted\<close> that those
  closures see. A scheduled clip is its start time and its duration.

  \<open>v_transcript\<close> is the transcript of the last render. An updater function passed to
  \<^verbatim>\<open>setTranscript\<close> is queued and called when React next renders the component; the
  only updater of this screen is the one for a complete turn, so the queue is the number
  \<open>v_pendingTurnUpdates\<close> of its pending calls.
\<close>

record voice_state =
  v_status :: jsstring
  v_transcript :: "TranscriptMessage list"
  v_pendingTurnUpdates :: nat
  v_isMuted :: bool
  v_isGeneratingReport :: bool
  v_sessionPromise :: "promise_outcome option"
  v_inputAudioContext :: "AudioContext option"
  v_outputAudioContext :: "AudioContext option"
  v_stream :: bool
  v_scriptProcessor :: bool
  v_source :: bool
  v_currentInputTranscription :: jsstring
  v_currentOutputTranscription :: jsstring
  v_nextStartTime :: rat
  v_audioSources :: "(rat \<times> rat) list"
  v_effect_isMuted :: bool
  v_effects :: "effect list"

definition v_emit :: "effect \<Rightarrow> voice_state \<Rightarrow> voice_state" where
  "v_emit e s = s\<lparr>v_effects := v_effects s @ [e]\<rparr>"

definition init_voice :: voice_state where
  "init_voice =
     \<lparr>v_status = utf16 ''Connecting...'', v_transcript = [],
      v_pendingTurnUpdates = 0, v_isMuted = False,
      v_isGeneratingReport = False, v_sessionPromise = None, v_inputAudioContext = None,
      v_outputAudioContext = None, v_stream = False, v_scriptProcessor = False,
      v_source = False, v_currentInputTranscription = [],
      v_currentOutputTranscription = [], v_nextStartTime = 0, v_audioSources = [],
      v_effect_isMuted = False, v_effects = []\<rparr>"

text \<open>
  \<^verbatim>\<open>startSession\<close>, run by the effect: the microphone is granted or not; the two audio
  contexts are created; the connection is requested.
\<close>

definition startSession_voice ::
  "bool \<Rightarrow> AudioContext \<Rightarrow> AudioContext \<Rightarrow> promise_outcome \<Rightarrow> voice_state \<Rightarrow> voice_state" where
  "startSession_voice micGranted inCtx outCtx session s =
     (let s0 = s\<lparr>v_effect_isMuted := v_isMuted s\<rparr>
      in if \<not> micGranted
         then (v_emit ConsoleError s0)
                \<lparr>v_status := utf16 ''Failed to access microphone. Please check permissions and refresh.''\<rparr>
         else s0\<lparr>v_stream := True, v_inputAudioContext := Some inCtx,
                 v_outputAudioContext := Some outCtx, v_sessionPromise := Some session\<rparr>)"

definition onopen_voice :: "voice_state \<Rightarrow> voice_state" where
  "onopen_voice s =
     s\<lparr>v_status := utf16 ''Connected. The interview will begin shortly.'',
       v_source := True, v_scriptProcessor := True\<rparr>"

text \<open>
  \<^verbatim>\<open>onaudioprocess\<close>: the frame is built, and the callback passed to \<^verbatim>\<open>then\<close> runs when
  the session promise resolves; it tests the \<open>isMuted\<close> of its closure.
\<close>

definition onaudioprocess_voice :: "rat list \<Rightarrow> voice_state \<Rightarrow> voice_state" where
  "onaudioprocess_voice inputData s =
     (case pcmBlob inputData of
        Inl e \<Rightarrow> s
      | Inr blob \<Rightarrow>
          (case v_sessionPromise s of
             Some Resolved \<Rightarrow>
               if \<not> v_effect_isMuted s then v_emit (SendRealtimeInput blob) s else s
           | _ \<Rightarrow> s))"

text \<open>The mute button: \<^verbatim>\<open>setIsMuted(!isMuted)\<close>.\<close>

definition toggleMute :: "voice_state \<Rightarrow> voice_state" where
  "toggleMute s = s\<lparr>v_isMuted := \<not> v_isMuted s\<rparr>"

text \<open>
  The updater that \<^verbatim>\<open>onmessage\<close> passes to \<^verbatim>\<open>setTranscript\<close> on a complete turn.
  It reads, trims and resets the two accumulation refs when it is called, which is at the
  render, not when the message arrives.
\<close>

definition turnComplete_voice :: "voice_state \<Rightarrow> voice_state" where
  "turnComplete_voice s =
     (let inp = trim (v_currentInputTranscription s);
          out = trim (v_currentOutputTranscription s);
          t1 = (if truthy inp
                then v_transcript s @ [\<lparr>speaker = USER, msg_text = inp\<rparr>]
                else v_transcript s);
          t2 = (if truthy out then t1 @ [\<lparr>speaker = AI, msg_text = out\<rparr>] else t1)
      in s\<lparr>v_transcript := t2, v_currentInputTranscription := [],
            v_currentOutputTranscription := []\<rparr>)"

text \<open>
  The audio part of \<^verbatim>\<open>onmessage\<close>. \<open>now\<close> is \<^verbatim>\<open>outputContext.currentTime\<close> as read.
  An exception (of \<^verbatim>\<open>decode\<close>, of \<^verbatim>\<open>decodeAudioData\<close>, or of \<^verbatim>\<open>start\<close> for a negative
  time) rejects the promise of the handler and leaves the state as it is at that point.
  Times are rationals: the code only takes the maximum of two times and adds a duration,
  and both keep their order properties under floating-point rounding.
\<close>

definition playAudio_voice :: "jsstring \<Rightarrow> rat \<Rightarrow> voice_state \<Rightarrow> voice_state" where
  "playAudio_voice data now s =
     (case v_outputAudioContext s of
        None \<Rightarrow> s
      | Some outputContext \<Rightarrow>
          (let s1 = s\<lparr>v_nextStartTime := max (v_nextStartTime s) now\<rparr>
           in case decode data of
                Inl e \<Rightarrow> s1
              | Inr bytes \<Rightarrow>
                  (case decodeAudioData bytes outputContext 24000 1 of
                     Inl e \<Rightarrow> s1
                   | Inr audioBuffer \<Rightarrow>
                       if v_nextStartTime s1 < 0 then s1
                       else (v_emit (PlaybackStart (v_nextStartTime s1) (duration audioBuffer)) s1)
                              \<lparr>v_nextStartTime := v_nextStartTime s1 + duration audioBuffer,
                               v_audioSources := v_audioSources s1
                                 @ [(v_nextStartTime s1, duration audioBuffer)]\<rparr>)))"

definition appendTranscriptions_voice :: "LiveServerMessage \<Rightarrow> voice_state \<Rightarrow> voice_state" where
  "appendTranscriptions_voice message s =
     (let s1 = (case outputTranscription message of
                  Some t \<Rightarrow> s\<lparr>v_currentOutputTranscription := v_currentOutputTranscription s @ t\<rparr>
                | None \<Rightarrow> s)
      in case inputTranscription message of
           Some t \<Rightarrow> s1\<lparr>v_currentInputTranscription := v_currentInputTranscription s1 @ t\<rparr>
         | None \<Rightarrow> s1)"

definition onmessage_voice :: "LiveServerMessage \<Rightarrow> rat \<Rightarrow> voice_state \<Rightarrow> voice_state" where
  "onmessage_voice message now s =
     (let s2 = appendTranscriptions_voice message s;
          s3 = (if turnComplete message
                then s2\<lparr>v_pendingTurnUpdates := Suc (v_pendingTurnUpdates s2)\<rparr>
                else s2)
      in case audioData message of
           Some data \<Rightarrow> if truthy data then playAudio_voice data now s3 else s3
         | None \<Rightarrow> s3)"

text \<open>
  A render of the component: React calls the queued updaters in the order in which they
  were queued, each on the result of the one before.
\<close>

fun callUpdaters_voice :: "nat \<Rightarrow> voice_state \<Rightarrow> voice_state" where
  "callUpdaters_voice 0 s = s"
| "callUpdaters_voice (Suc n) s = callUpdaters_voice n (turnComplete_voice s)"

definition rerender_voice :: "voice_state \<Rightarrow> voice_state" where
  "rerender_voice s =
     (callUpdaters_voice (v_pendingTurnUpdates s) s)\<lparr>v_pendingTurnUpdates := 0\<rparr>"

text \<open>The listener for \<^verbatim>\<open>ended\<close> removes the clip from \<open>audioSources\<close>.\<close>

definition onended_voice :: "rat \<times> rat \<Rightarrow> voice_state \<Rightarrow> voice_state" where
  "onended_voice clip s = s\<lparr>v_audioSources := remove1 clip (v_audioSources s)\<rparr>"

text \<open>
  \<^verbatim>\<open>endInterview\<close> of the voice screen. \<^verbatim>\<open>close()\<close> of an audio context is asynchronous;
  the model lets the state become \<open>Closed\<close> at once, which is the most favourable timing
  for a second teardown. \<open>outcome\<close> is what \<^verbatim>\<open>generateFeedbackReport\<close> returns or throws.
\<close>

definition stopMicrophone_voice :: "voice_state \<Rightarrow> voice_state" where
  "stopMicrophone_voice s =
     (let s1 = (if v_stream s then v_emit TrackStop s else s);
          s2 = (if v_scriptProcessor s1 then v_emit ProcessorDisconnect s1 else s1)
      in if v_source s2 then v_emit SourceDisconnect s2 else s2)"

definition closeInputContext_voice :: "voice_state \<Rightarrow> voice_state" where
  "closeInputContext_voice s =
     (case v_inputAudioContext s of
        Some c \<Rightarrow>
          if ctxState c \<noteq> Closed
          then (v_emit InputContextClose s)
                 \<lparr>v_inputAudioContext := Some (c\<lparr>ctxState := Closed\<rparr>)\<rparr>
          else s
      | None \<Rightarrow> s)"

definition stopPlayback_voice :: "voice_state \<Rightarrow> voice_state" where
  "stopPlayback_voice s =
     (case v_outputAudioContext s of
        Some c \<Rightarrow>
          if ctxState c \<noteq> Closed
          then (v_emit OutputContextClose
                  (s\<lparr>v_effects := v_effects s
                        @ map (\<lambda>clip. PlaybackStop (fst clip)) (v_audioSources s)\<rparr>))
                 \<lparr>v_outputAudioContext := Some (c\<lparr>ctxState := Closed\<rparr>)\<rparr>
          else s
      | None \<Rightarrow> s)"

definition closeSession_voice :: "voice_state \<Rightarrow> voice_state" where
  "closeSession_voice s =
     (case v_sessionPromise s of
        Some Resolved \<Rightarrow> v_emit SessionClose s
      | Some Rejected \<Rightarrow> v_emit ConsoleError s
      | None \<Rightarrow> s)"

definition endInterview_voice ::
  "js_error + FeedbackReport \<Rightarrow> voice_state \<Rightarrow> voice_state" where
  "endInterview_voice outcome s =
     (let s4 = closeSession_voice
                 (stopPlayback_voice
                    (closeInputContext_voice
                       (stopMicrophone_voice
                          (s\<lparr>v_status := utf16 ''Generating your feedback report...'',
                             v_isGeneratingReport := True\<rparr>))));
          s5 = v_emit (GenerateReport (v_transcript s)) s4
      in case outcome of
           Inr report \<Rightarrow> v_emit (InterviewEnd (v_transcript s) report) s5
         | Inl e \<Rightarrow>
             (v_emit ConsoleError s5)
               \<lparr>v_status := utf16 ''Error generating report. Please try again.''\<rparr>)"

text \<open>
  The cleanup that the effect returns, run when the component unmounts. It calls
  \<^verbatim>\<open>close()\<close> on both contexts whatever their state; closing a context that is closed
  already rejects, and the rejection is logged.
\<close>

definition disposeInputContext_voice :: "voice_state \<Rightarrow> voice_state" where
  "disposeInputContext_voice s =
     (case v_inputAudioContext s of
        Some c \<Rightarrow>
          if ctxState c = Closed
          then v_emit ConsoleError (v_emit InputContextClose s)
          else (v_emit InputContextClose s)
                 \<lparr>v_inputAudioContext := Some (c\<lparr>ctxState := Closed\<rparr>)\<rparr>
      | None \<Rightarrow> s)"

definition disposeOutputContext_voice :: "voice_state \<Rightarrow> voice_state" where
  "disposeOutputContext_voice s =
     (case v_outputAudioContext s of
        Some c \<Rightarrow>
          if ctxState c = Closed
          then v_emit ConsoleError (v_emit OutputContextClose s)
          else (v_emit OutputContextClose s)
                 \<lparr>v_outputAudioContext := Some (c\<lparr>ctxState := Closed\<rparr>)\<rparr>
      | None \<Rightarrow> s)"

definition unmount_voice :: "voice_state \<Rightarrow> voice_state" where
  "unmount_voice s =
     closeSession_voice
       (disposeOutputContext_voice (disposeInputContext_voice (stopMicrophone_voice s)))"

text \<open>
  What the component renders: while \<open>isGeneratingReport\<close> holds, only the spinner with
  its fixed text; otherwise the status line, the transcript, the mute button and the
  End Interview button.
\<close>

datatype voice_view =
    AnalyzingSpinner
  | SessionView jsstring "TranscriptMessage list" bool

definition render_voice :: "voice_state \<Rightarrow> voice_view" where
  "render_voice s =
     (if v_isGeneratingReport s then AnalyzingSpinner
      else SessionView (v_status s) (v_transcript s) (v_isMuted s))"

text \<open>The events of the voice screen, and a run of them.\<close>

datatype voice_event =
    VStartSession bool AudioContext AudioContext promise_outcome
  | VOpen
  | VMessage LiveServerMessage rat
  | VRender
  | VAudioProcess "rat list"
  | VEnded "rat \<times> rat"
  | VToggleMute
  | VEndInterview "js_error + FeedbackReport"
  | VUnmount

fun step_voice :: "voice_event \<Rightarrow> voice_state \<Rightarrow> voice_state" where
  "step_voice (VStartSession micGranted inCtx outCtx session) s =
     startSession_voice micGranted inCtx outCtx session s"
| "step_voice VOpen s = onopen_voice s"
| "step_voice (VMessage message now) s = onmessage_voice message now s"
| "step_voice VRender s = rerender_voice s"
| "step_voice (VAudioProcess inputData) s = onaudioprocess_voice inputData s"
| "step_voice (VEnded clip) s = onended_voice clip s"
| "step_voice VToggleMute s = toggleMute s"
| "step_voice (VEndInterview outcome) s = endInterview_voice outcome s"
| "step_voice VUnmount s = unmount_voice s"

fun run_voice :: "voice_event list \<Rightarrow> voice_state \<Rightarrow> voice_state" where
  "run_voice [] s = s"
| "run_voice (e # es) s = run_voice es (step_voice e s)"

section \<open>The push-to-talk screen\<close>

text \<open>
  React state (\<open>status\<close>, \<open>transcript\<close>, \<open>isGeneratingReport\<close>, \<open>isRecording\<close>,
  \<open>isAiTyping\<close>), the refs, the local \<open>currentAiText\<close> of the response loop that is
  running (if one is), and the effect trace.
\<close>

record ptt_state =
  p_status :: jsstring
  p_transcript :: "TranscriptMessage list"
  p_isGeneratingReport :: bool
  p_isRecording :: bool
  p_isAiTyping :: bool
  p_chat :: bool
  p_sessionPromise :: "promise_outcome option"
  p_audioContexts :: "(AudioContext \<times> AudioContext) option"
  p_audioStream :: bool
  p_scriptProcessor :: bool
  p_mediaStreamSource :: bool
  p_liveTranscription :: jsstring
  p_cleanupPerformed :: bool
  p_currentAiText :: "jsstring option"
  p_effects :: "effect list"

definition p_emit :: "effect \<Rightarrow> ptt_state \<Rightarrow> ptt_state" where
  "p_emit e s = s\<lparr>p_effects := p_effects s @ [e]\<rparr>"

definition init_ptt :: ptt_state where
  "init_ptt =
     \<lparr>p_status = utf16 ''Initializing...'', p_transcript = [], p_isGeneratingReport = False,
      p_isRecording = False, p_isAiTyping = False, p_chat = False, p_sessionPromise = None,
      p_audioContexts = None, p_audioStream = False, p_scriptProcessor = False,
      p_mediaStreamSource = False, p_liveTranscription = [], p_cleanupPerformed = False,
      p_currentAiText = None, p_effects = []\<rparr>"

text \<open>
  \<^verbatim>\<open>newTranscript[newTranscript.length - 1] = m\<close> on a copy of the transcript. On an empty
  array the index is \<open>-1\<close>, which sets a property and no element.
\<close>

definition set_last :: "TranscriptMessage \<Rightarrow> TranscriptMessage list \<Rightarrow> TranscriptMessage list" where
  "set_last m t = (if t = [] then t else t[length t - 1 := m])"

text \<open>
  \<^verbatim>\<open>cleanupLiveSession\<close>. The function is \<^verbatim>\<open>async\<close>: it tests the flag
  \<open>cleanupPerformed\<close> first, stops the stream and disconnects the nodes, and then
  suspends at up to three \<^verbatim>\<open>await\<close>s (the two \<^verbatim>\<open>close()\<close> calls, which share one
  \<^verbatim>\<open>try\<close>, and the session promise); it clears \<open>audioContextsRef\<close> and
  \<open>sessionPromiseRef\<close> after their \<^verbatim>\<open>await\<close>s and sets the flag last. Other callbacks
  can run while it is suspended. First the four steps that its comments name, as they run
  when nothing comes in between; then the call with its suspension points.
\<close>

definition stopMicrophoneStream :: "ptt_state \<Rightarrow> ptt_state" where
  "stopMicrophoneStream s =
     (if p_audioStream s then (p_emit TrackStop s)\<lparr>p_audioStream := False\<rparr> else s)"

definition disconnectAudioProcessing :: "ptt_state \<Rightarrow> ptt_state" where
  "disconnectAudioProcessing s =
     (let s1 = (if p_scriptProcessor s
                then (p_emit ProcessorDisconnect s)\<lparr>p_scriptProcessor := False\<rparr> else s)
      in if p_mediaStreamSource s1
         then (p_emit SourceDisconnect s1)\<lparr>p_mediaStreamSource := False\<rparr> else s1)"

definition closeAudioContexts :: "ptt_state \<Rightarrow> ptt_state" where
  "closeAudioContexts s =
     (case p_audioContexts s of
        Some (input, output) \<Rightarrow>
          (if ctxState input = Closed
           then p_emit ConsoleError (p_emit InputContextClose s)
           else if ctxState output = Closed
           then p_emit ConsoleError (p_emit OutputContextClose (p_emit InputContextClose s))
           else p_emit OutputContextClose (p_emit InputContextClose s))
            \<lparr>p_audioContexts := None\<rparr>
      | None \<Rightarrow> s)"

definition closeLiveSession :: "ptt_state \<Rightarrow> ptt_state" where
  "closeLiveSession s =
     (case p_sessionPromise s of
        Some Resolved \<Rightarrow> (p_emit SessionClose s)\<lparr>p_sessionPromise := None\<rparr>
      | Some Rejected \<Rightarrow> (p_emit ConsoleError s)\<lparr>p_sessionPromise := None\<rparr>
      | None \<Rightarrow> s)"

text \<open>A call of \<^verbatim>\<open>cleanupLiveSession\<close> that runs to its end with no other callback in between.\<close>

definition cleanupLiveSession :: "ptt_state \<Rightarrow> ptt_state" where
  "cleanupLiveSession s =
     (if p_cleanupPerformed s then s
      else (closeLiveSession
              (closeAudioContexts (disconnectAudioProcessing (stopMicrophoneStream s))))
             \<lparr>p_cleanupPerformed := True\<rparr>)"

text \<open>
  The same call with its suspension points. A suspended call waits for
  \<^verbatim>\<open>input.close()\<close>, for \<^verbatim>\<open>output.close()\<close> (each with the fact whether that promise
  rejects: closing a closed context does), or for the session promise that it read from
  the ref. \<open>cleanup_start\<close> runs the call up to its first \<^verbatim>\<open>await\<close>, or to its end when
  there is none; \<open>cleanup_resume\<close> runs a suspended call up to its next \<^verbatim>\<open>await\<close> or
  to its end. After the first \<^verbatim>\<open>await\<close> the source reads \<open>audioContextsRef.current\<close>
  again; when another call has cleared it meanwhile, the read throws inside the
  \<^verbatim>\<open>try\<close>. The state of a context changes as soon as \<^verbatim>\<open>close()\<close> is called.
\<close>

datatype cleanup_await =
    AwaitInputClose bool
  | AwaitOutputClose bool
  | AwaitSession promise_outcome

definition cleanup_session :: "ptt_state \<Rightarrow> ptt_state \<times> cleanup_await option" where
  "cleanup_session s =
     (case p_sessionPromise s of
        Some outcome \<Rightarrow> (s, Some (AwaitSession outcome))
      | None \<Rightarrow> (s\<lparr>p_cleanupPerformed := True\<rparr>, None))"

definition cleanup_start :: "ptt_state \<Rightarrow> ptt_state \<times> cleanup_await option" where
  "cleanup_start s =
     (if p_cleanupPerformed s then (s, None)
      else
        (let s3 = disconnectAudioProcessing (stopMicrophoneStream s)
         in case p_audioContexts s3 of
              Some (input, output) \<Rightarrow>
                ((p_emit InputContextClose s3)
                   \<lparr>p_audioContexts := Some (input\<lparr>ctxState := Closed\<rparr>, output)\<rparr>,
                 Some (AwaitInputClose (ctxState input = Closed)))
            | None \<Rightarrow> cleanup_session s3))"

fun cleanup_resume :: "cleanup_await \<Rightarrow> ptt_state \<Rightarrow> ptt_state \<times> cleanup_await option" where
  "cleanup_resume (AwaitInputClose rejected) s =
     (if rejected
      then cleanup_session ((p_emit ConsoleError s)\<lparr>p_audioContexts := None\<rparr>)
      else (case p_audioContexts s of
              None \<Rightarrow> cleanup_session ((p_emit ConsoleError s)\<lparr>p_audioContexts := None\<rparr>)
            | Some (input, output) \<Rightarrow>
                ((p_emit OutputContextClose s)
                   \<lparr>p_audioContexts := Some (input, output\<lparr>ctxState := Closed\<rparr>)\<rparr>,
                 Some (AwaitOutputClose (ctxState output = Closed)))))"
| "cleanup_resume (AwaitOutputClose rejected) s =
     cleanup_session
       ((if rejected then p_emit ConsoleError s else s)\<lparr>p_audioContexts := None\<rparr>)"
| "cleanup_resume (AwaitSession outcome) s =
     ((case outcome of
         Resolved \<Rightarrow> p_emit SessionClose s
       | Rejected \<Rightarrow> p_emit ConsoleError s)
        \<lparr>p_sessionPromise := None, p_cleanupPerformed := True\<rparr>,
      None)"

text \<open>
  A suspended call resumed until it ends, with nothing in between. A call has at most
  three \<^verbatim>\<open>await\<close>s, so three resumptions end it.
\<close>

fun cleanup_finish :: "nat \<Rightarrow> ptt_state \<times> cleanup_await option \<Rightarrow> ptt_state" where
  "cleanup_finish n (s, None) = s"
| "cleanup_finish 0 (s, Some a) = s"
| "cleanup_finish (Suc n) (s, Some a) = cleanup_finish n (cleanup_resume a s)"

text \<open>
  The end of a response stream, normal or by an exception: the \<^verbatim>\<open>catch\<close> block sets a
  status, the \<^verbatim>\<open>finally\<close> block then sets \<open>isAiTyping\<close> and the status again.
\<close>

definition streamFailed :: "jsstring \<Rightarrow> ptt_state \<Rightarrow> ptt_state" where
  "streamFailed message s = (p_emit ConsoleError s)\<lparr>p_status := message\<rparr>"

definition streamFinally :: "ptt_state \<Rightarrow> ptt_state" where
  "streamFinally s =
     s\<lparr>p_isAiTyping := False, p_status := utf16 ''Ready for your answer.'',
       p_currentAiText := None\<rparr>"

text \<open>
  \<^verbatim>\<open>startConversation\<close>, run once when the component mounts. \<open>streamOpened\<close> says
  whether \<^verbatim>\<open>sendMessageStream\<close> returned a stream or threw.
\<close>

definition startConversation :: "bool \<Rightarrow> ptt_state \<Rightarrow> ptt_state" where
  "startConversation streamOpened s =
     (let s1 = p_emit (ChatSend (utf16 ''Start the interview now.''))
                 (s\<lparr>p_chat := True, p_isAiTyping := True,
                    p_status := utf16 ''AI is preparing...'',
                    p_transcript := [\<lparr>speaker = AI, msg_text = []\<rparr>]\<rparr>)
      in if streamOpened then s1\<lparr>p_currentAiText := Some []\<rparr>
         else streamFinally
                (streamFailed (utf16 ''Error initializing AI. Please refresh.'') s1))"

text \<open>
  One turn of a \<^verbatim>\<open>for await\<close> loop over a response stream, and its end. The two loops of
  the source (in \<^verbatim>\<open>startConversation\<close> and in \<^verbatim>\<open>handleStopRecording\<close>) have the same
  body; they differ in the status that the \<^verbatim>\<open>catch\<close> block sets.
\<close>

definition onChunk :: "jsstring \<Rightarrow> ptt_state \<Rightarrow> ptt_state" where
  "onChunk chunk s =
     (case p_currentAiText s of
        None \<Rightarrow> s
      | Some currentAiText \<Rightarrow>
          s\<lparr>p_currentAiText := Some (currentAiText @ chunk),
            p_transcript := set_last \<lparr>speaker = AI, msg_text = currentAiText @ chunk\<rparr>
                              (p_transcript s)\<rparr>)"

definition onStreamEnd :: "jsstring option \<Rightarrow> ptt_state \<Rightarrow> ptt_state" where
  "onStreamEnd failure s =
     (case p_currentAiText s of
        None \<Rightarrow> s
      | Some currentAiText \<Rightarrow>
          (case failure of
             None \<Rightarrow> streamFinally s
           | Some message \<Rightarrow> streamFinally (streamFailed message s)))"

text \<open>
  \<^verbatim>\<open>handleStartRecording\<close>. It fails when the API key is missing, when the microphone
  is refused, or when the connection promise rejects.
\<close>

definition handleStartRecording ::
  "bool \<Rightarrow> bool \<Rightarrow> AudioContext \<Rightarrow> AudioContext \<Rightarrow> promise_outcome \<Rightarrow> ptt_state \<Rightarrow> ptt_state" where
  "handleStartRecording apiKey micGranted inCtx outCtx session s =
     (if p_isRecording s \<or> p_isAiTyping s then s
      else
        (let s1 = s\<lparr>p_isRecording := True, p_status := utf16 ''Listening...'',
                    p_liveTranscription := [], p_cleanupPerformed := False,
                    p_transcript := p_transcript s @ [\<lparr>speaker = USER, msg_text = utf16 ''...''\<rparr>]\<rparr>;
             failed = (\<lambda>s'. (p_emit ConsoleError s')
                          \<lparr>p_status := utf16 ''Mic error. Check permissions.'',
                           p_isRecording := False\<rparr>)
         in if \<not> apiKey \<or> \<not> micGranted then failed s1
            else
              (let s2 = s1\<lparr>p_audioStream := True, p_audioContexts := Some (inCtx, outCtx),
                          p_sessionPromise := Some session\<rparr>
               in if session = Rejected then failed s2 else s2)))"

definition onopen_ptt :: "ptt_state \<Rightarrow> ptt_state" where
  "onopen_ptt s = s\<lparr>p_mediaStreamSource := True, p_scriptProcessor := True\<rparr>"

text \<open>The push-to-talk screen has no mute: every frame is sent once the session is there.\<close>

definition onaudioprocess_ptt :: "rat list \<Rightarrow> ptt_state \<Rightarrow> ptt_state" where
  "onaudioprocess_ptt inputData s =
     (case pcmBlob inputData of
        Inl e \<Rightarrow> s
      | Inr blob \<Rightarrow>
          (case p_sessionPromise s of
             Some Resolved \<Rightarrow> p_emit (SendRealtimeInput blob) s
           | _ \<Rightarrow> s))"

text \<open>\<^verbatim>\<open>onmessage\<close>: an input transcription is appended and shown; audio is ignored.\<close>

definition onmessage_ptt :: "LiveServerMessage \<Rightarrow> ptt_state \<Rightarrow> ptt_state" where
  "onmessage_ptt message s =
     (case inputTranscription message of
        Some transcription \<Rightarrow>
          s\<lparr>p_liveTranscription := p_liveTranscription s @ transcription,
            p_transcript :=
              set_last \<lparr>speaker = USER,
                        msg_text = p_liveTranscription s @ transcription @ utf16 ''...''\<rparr>
                (p_transcript s)\<rparr>
      | None \<Rightarrow> s)"

text \<open>
  \<^verbatim>\<open>handleStopRecording\<close>, up to the point where the response stream is open (or has
  failed to open); the turns of the loop follow as \<open>onChunk\<close> and \<open>onStreamEnd\<close>.
  The call of \<^verbatim>\<open>cleanupLiveSession\<close> that it awaits is taken to run uninterrupted.
\<close>

definition finalizeUserMessage :: "jsstring \<Rightarrow> TranscriptMessage list \<Rightarrow> TranscriptMessage list" where
  "finalizeUserMessage userMessageText t =
     (if length t > 0 \<and> speaker (last t) = USER
      then t[length t - 1 :=
               (last t)\<lparr>msg_text := (if truthy userMessageText then userMessageText
                                       else utf16 ''(No speech detected)'')\<rparr>]
      else t)"

definition handleStopRecording :: "bool \<Rightarrow> ptt_state \<Rightarrow> ptt_state" where
  "handleStopRecording streamOpened s =
     (if \<not> p_isRecording s then s
      else
        (let s1 = cleanupLiveSession
                    (s\<lparr>p_isRecording := False, p_status := utf16 ''Processing answer...''\<rparr>);
             userMessageText = trim (p_liveTranscription s1);
             s2 = s1\<lparr>p_liveTranscription := [],
                     p_transcript := finalizeUserMessage userMessageText (p_transcript s1)\<rparr>
         in if truthy userMessageText \<and> p_chat s2
            then
              (let s3 = p_emit (ChatSend userMessageText)
                          (s2\<lparr>p_isAiTyping := True, p_status := utf16 ''AI is thinking...'',
                              p_transcript := p_transcript s2 @ [\<lparr>speaker = AI, msg_text = []\<rparr>]\<rparr>)
               in if streamOpened then s3\<lparr>p_currentAiText := Some []\<rparr>
                  else streamFinally
                         (streamFailed (utf16 ''An error occurred with the AI.'') s3))
            else s2\<lparr>p_status := utf16 ''Ready for your answer.''\<rparr>))"

text \<open>
  \<^verbatim>\<open>endInterview\<close> of the push-to-talk screen. \<open>outcome\<close> is what
  \<^verbatim>\<open>generateFeedbackReport\<close> returns or throws. The call of \<^verbatim>\<open>cleanupLiveSession\<close>
  that it awaits is taken to run uninterrupted.
\<close>

definition cleanTranscript :: "TranscriptMessage list \<Rightarrow> TranscriptMessage list" where
  "cleanTranscript t =
     filter (\<lambda>msg. trim (msg_text msg) \<noteq> [] \<and> trim (msg_text msg) \<noteq> utf16 ''...'') t"

definition endInterview_ptt :: "js_error + FeedbackReport \<Rightarrow> ptt_state \<Rightarrow> ptt_state" where
  "endInterview_ptt outcome s =
     (let s1 = cleanupLiveSession
                 (s\<lparr>p_status := utf16 ''Ending session...'', p_isRecording := False,
                    p_isAiTyping := False\<rparr>);
          s2 = p_emit (GenerateReport (cleanTranscript (p_transcript s)))
                 (s1\<lparr>p_status := utf16 ''Generating your feedback report...'',
                     p_isGeneratingReport := True\<rparr>)
      in case outcome of
           Inr report \<Rightarrow> p_emit (InterviewEnd (cleanTranscript (p_transcript s)) report) s2
         | Inl e \<Rightarrow>
             (p_emit ConsoleError s2)
               \<lparr>p_status := utf16 ''Error generating report. Please try again.'',
                p_isGeneratingReport := False\<rparr>)"

text \<open>
  What the component renders: the spinner while \<open>isGeneratingReport\<close> holds; otherwise
  the status line, the transcript, the Record Answer button (shown when not recording,
  disabled while the AI is typing) or the Stop Recording button, and the End Interview
  button, disabled while recording or while the AI is typing.
\<close>

record ptt_controls =
  shownStatus :: jsstring
  shownTranscript :: "TranscriptMessage list"
  recordEnabled :: bool
  stopShown :: bool
  endEnabled :: bool

datatype ptt_view = PttSpinner | PttSession ptt_controls

definition render_ptt :: "ptt_state \<Rightarrow> ptt_view" where
  "render_ptt s =
     (if p_isGeneratingReport s then PttSpinner
      else PttSession
             \<lparr>shownStatus = p_status s, shownTranscript = p_transcript s,
              recordEnabled = (\<not> p_isRecording s \<and> \<not> p_isAiTyping s),
              stopShown = p_isRecording s,
              endEnabled = (\<not> (p_isRecording s \<or> p_isAiTyping s))\<rparr>)"

text \<open>The events of the push-to-talk screen, and a run of them.\<close>

datatype ptt_event =
    PStartRecording bool bool AudioContext AudioContext promise_outcome
  | POpen
  | PMessage LiveServerMessage
  | PAudioProcess "rat list"
  | PStopRecording bool
  | PChunk jsstring
  | PStreamEnd "jsstring option"
  | PEndInterview "js_error + FeedbackReport"
  | PUnmount

fun step_ptt :: "ptt_event \<Rightarrow> ptt_state \<Rightarrow> ptt_state" where
  "step_ptt (PStartRecording apiKey micGranted inCtx outCtx session) s =
     handleStartRecording apiKey micGranted inCtx outCtx session s"
| "step_ptt POpen s = onopen_ptt s"
| "step_ptt (PMessage message) s = onmessage_ptt message s"
| "step_ptt (PAudioProcess inputData) s = onaudioprocess_ptt inputData s"
| "step_ptt (PStopRecording streamOpened) s = handleStopRecording streamOpened s"
| "step_ptt (PChunk chunk) s = onChunk chunk s"
| "step_ptt (PStreamEnd failure) s = onStreamEnd failure s"
| "step_ptt (PEndInterview outcome) s = endInterview_ptt outcome s"
| "step_ptt PUnmount s = cleanupLiveSession s"

fun run_ptt :: "ptt_event list \<Rightarrow> ptt_state \<Rightarrow> ptt_state" where
  "run_ptt [] s = s"
| "run_ptt (e # es) s = run_ptt es (step_ptt e s)"

section \<open>Auxiliary notions for the proofs\<close>

text \<open>
  The sextets of the base64 encoding of a byte sequence, without the alphabet and
  without the padding, and the number of padding characters.
\<close>

fun b64_body :: "byte list \<Rightarrow> nat list" where
  "b64_body (a # b # c # rest) =
     (let n = unat a * 65536 + unat b * 256 + unat c
      in [n div 262144, n div 4096 mod 64, n div 64 mod 64, n mod 64] @ b64_body rest)"
| "b64_body [a, b] =
     (let n = (unat a * 256 + unat b) * 4 in [n div 4096, n div 64 mod 64, n mod 64])"
| "b64_body [a] = (let n = unat a * 16 in [n div 64, n mod 64])"
| "b64_body [] = []"

definition b64_pad :: "byte list \<Rightarrow> nat" where
  "b64_pad bs = (3 - length bs mod 3) mod 3"

text \<open>
  \<open>frozen t t'\<close>: the transcript \<open>t'\<close> is at least as long as \<open>t\<close> and agrees with it on
  every message of \<open>t\<close> but the last.
\<close>

definition frozen :: "TranscriptMessage list \<Rightarrow> TranscriptMessage list \<Rightarrow> bool" where
  "frozen t t' \<longleftrightarrow> length t \<le> length t' \<and> take (length t - 1) t' = butlast t"

text \<open>A string that is empty or consists of white space only.\<close>

definition blank :: "jsstring \<Rightarrow> bool" where
  "blank s \<longleftrightarrow> dropWhile js_whitespace s = []"

text \<open>Messages of the live connection that carry one thing only.\<close>

definition inputFragment :: "jsstring \<Rightarrow> LiveServerMessage" where
  "inputFragment t =
     \<lparr>outputTranscription = None, inputTranscription = Some t, turnComplete = False,
      audioData = None\<rparr>"

definition turnCompleteSignal :: LiveServerMessage where
  "turnCompleteSignal =
     \<lparr>outputTranscription = None, inputTranscription = None, turnComplete = True,
      audioData = None\<rparr>"

definition audioPayload :: "jsstring \<Rightarrow> LiveServerMessage" where
  "audioPayload data =
     \<lparr>outputTranscription = None, inputTranscription = None, turnComplete = False,
      audioData = Some data\<rparr>"


text \<open>An audio context as a browser provides it, for the examples.\<close>

definition example_context :: AudioContext where
  "example_context =
     \<lparr>maxChannels = 32, minSampleRate = 8000, maxSampleRate = 96000, ctxState = Running\<rparr>"

text \<open>A report, and the voice screen with its live session open, for the examples.\<close>

definition example_report :: FeedbackReport where
  "example_report =
     \<lparr>overallScore = 80,
      answerQuality = \<lparr>aqScore = 80, aqFeedback = [], example = []\<rparr>,
      communicationSkills = \<lparr>csScore = 80, csFeedback = [], fillerWords = 0, pace = []\<rparr>,
      contentFeedback = \<lparr>cfScore = 80, cfFeedback = [], missedOpportunities = []\<rparr>\<rparr>"

definition live_voice :: voice_state where
  "live_voice =
     onopen_voice (startSession_voice True example_context example_context Resolved init_voice)"

text \<open>The release calls that one call of \<^verbatim>\<open>cleanupLiveSession\<close> makes in a state.\<close>

definition cleanup_calls :: "ptt_state \<Rightarrow> effect list" where
  "cleanup_calls s =
     (if p_cleanupPerformed s then []
      else (if p_audioStream s then [TrackStop] else [])
         @ (if p_scriptProcessor s then [ProcessorDisconnect] else [])
         @ (if p_mediaStreamSource s then [SourceDisconnect] else [])
         @ (case p_audioContexts s of
              None \<Rightarrow> []
            | Some (input, output) \<Rightarrow>
                if ctxState input = Closed then [InputContextClose]
                else [InputContextClose, OutputContextClose])
         @ (if p_sessionPromise s = Some Resolved then [SessionClose] else []))"

text \<open>
  The clips started so far, as start time and duration, in the order of the calls of
  \<^verbatim>\<open>start\<close>; and the property that every clip has ended when any later one starts.
\<close>

fun playback_start :: "effect \<Rightarrow> (rat \<times> rat) list" where
  "playback_start (PlaybackStart when d) = [(when, d)]"
| "playback_start _ = []"

definition playback_starts :: "effect list \<Rightarrow> (rat \<times> rat) list" where
  "playback_starts es = concat (map playback_start es)"

fun ends_by :: "rat \<Rightarrow> (rat \<times> rat) list \<Rightarrow> bool" where
  "ends_by t [] = True"
| "ends_by t ((when, d) # cs) = (when + d \<le> t \<and> ends_by t cs)"

fun starts_from :: "rat \<Rightarrow> (rat \<times> rat) list \<Rightarrow> bool" where
  "starts_from t [] = True"
| "starts_from t ((when, d) # cs) = (t \<le> when \<and> starts_from t cs)"

fun no_overlap :: "(rat \<times> rat) list \<Rightarrow> bool" where
  "no_overlap [] = True"
| "no_overlap ((when, d) # cs) = (starts_from (when + d) cs \<and> no_overlap cs)"

definition sched_ok :: "voice_state \<Rightarrow> bool" where
  "sched_ok s \<longleftrightarrow>
     no_overlap (playback_starts (v_effects s))
     \<and> ends_by (v_nextStartTime s) (playback_starts (v_effects s))"

text \<open>
  The push-to-talk screen while a recording is running and its live session is open;
  and two overlapping calls of \<^verbatim>\<open>cleanupLiveSession\<close> from such a state. The user presses
  Stop Recording: \<^verbatim>\<open>handleStopRecording\<close> resets \<open>isRecording\<close> and calls
  \<^verbatim>\<open>cleanupLiveSession\<close>, which suspends. The End Interview button is enabled now; the
  user presses it: \<^verbatim>\<open>endInterview\<close> makes the second call, which suspends as well. Then
  one of the two calls runs to its end, and the other after it.
\<close>

definition live_ptt :: ptt_state where
  "live_ptt =
     run_ptt [PStreamEnd None,
              PStartRecording True True example_context example_context Resolved, POpen]
       (startConversation True init_ptt)"

definition overlapping_stop_and_end :: "bool \<Rightarrow> ptt_state \<Rightarrow> ptt_state" where
  "overlapping_stop_and_end secondEndsFirst s =
     (case cleanup_start
             (s\<lparr>p_isRecording := False, p_status := utf16 ''Processing answer...''\<rparr>) of
        (s1, first) \<Rightarrow>
          (case cleanup_start
                  (s1\<lparr>p_status := utf16 ''Ending session...'', p_isRecording := False,
                      p_isAiTyping := False\<rparr>) of
             (s2, second) \<Rightarrow>
               if secondEndsFirst
               then cleanup_finish 3 (cleanup_finish 3 (s2, second), first)
               else cleanup_finish 3 (cleanup_finish 3 (s2, first), second)))"

section \<open>Base64: decoding inverts encoding\<close>

lemma unat_byte_lt: "unat (a :: byte) < 256"
  using unsigned_less[of a, where 'a=nat] by simp

lemma unat_cu: "k < 65536 \<Longrightarrow> unat (of_nat k :: code_unit) = k"
  by (simp add: unat_of_nat)

lemma unat_b64_char: "unat (b64_char n) = b64_code n"
proof -
  have "b64_code n < 65536" by (auto simp: b64_code_def)
  then show ?thesis unfolding b64_char_def by (rule unat_cu)
qed

lemma b64_val_char: "n < 64 \<Longrightarrow> b64_val (b64_char n) = Some n"
  by (simp add: b64_val_def unat_b64_char Let_def) (auto simp: b64_code_def)

lemma b64_char_not_pad: "n < 64 \<Longrightarrow> b64_char n \<noteq> 61"
  using b64_val_char[of n] by (auto simp: b64_val_def Let_def)

lemma b64_char_not_ws: "n < 64 \<Longrightarrow> \<not> ascii_whitespace (b64_char n)"
  using b64_val_char[of n] by (auto simp: b64_val_def ascii_whitespace_def Let_def)


lemma b64_pad_Cons3: "b64_pad (a # b # c # rest) = b64_pad rest"
  by (simp add: b64_pad_def)

lemma group3_lt: "x < 256 \<Longrightarrow> y < 256 \<Longrightarrow> z < 256 \<Longrightarrow> (x * 65536 + y * 256 + z) div 262144 < (64::nat)"
  by linarith

lemma group2_lt: "x < 256 \<Longrightarrow> y < 256 \<Longrightarrow> (x * 256 + y) * 4 div 4096 < (64::nat)"
  by (simp add: algebra_simps)

lemma group1_lt: "x < 256 \<Longrightarrow> x * 16 div 64 < (64::nat)"
  by linarith

lemma b64_body_lt: "\<forall>n \<in> set (b64_body bs). n < 64"
proof (induction bs rule: b64_body.induct)
  case (1 a b c rest)
  then show ?case
    using group3_lt[OF unat_byte_lt[of a] unat_byte_lt[of b] unat_byte_lt[of c]]
    by (simp add: Let_def)
next
  case (2 a b)
  then show ?case
    using group2_lt[OF unat_byte_lt[of a] unat_byte_lt[of b]]
    by (simp add: Let_def)
next
  case (3 a)
  then show ?case using group1_lt[OF unat_byte_lt[of a]] by (simp add: Let_def)
qed simp


lemma b64_pad_simps: "b64_pad [] = 0" "b64_pad [a] = 2" "b64_pad [a, b] = 1"
  by (simp_all add: b64_pad_def)

lemma b64_encode_body:
  "b64_encode bs = map b64_char (b64_body bs) @ replicate (b64_pad bs) 61"
proof (induction bs rule: b64_body.induct)
  case (1 a b c rest)
  then show ?case by (simp add: Let_def b64_pad_Cons3)
next
  case (2 a b)
  show ?case by (simp add: Let_def b64_pad_simps)
next
  case (3 a)
  show ?case by (simp add: Let_def b64_pad_simps numeral_2_eq_2)
next
  case 4
  show ?case by (simp add: b64_pad_simps)
qed


lemma length_b64_body_mod: "length (b64_body bs) mod 4 \<noteq> 1"
proof (induction bs rule: b64_body.induct)
  case (1 a b c rest)
  have "length (b64_body (a # b # c # rest)) = length (b64_body rest) + 4"
    by (simp add: Let_def)
  with 1[OF refl] show ?case by presburger
qed (simp_all add: Let_def)

lemma length_b64_encode: "length (b64_encode bs) mod 4 = 0"
proof (induction bs rule: b64_encode.induct)
  case (1 a b c rest)
  have "length (b64_encode (a # b # c # rest)) = length (b64_encode rest) + 4"
    by (simp add: Let_def)
  with 1 show ?case by (simp only: mod_add_self2) 
qed (simp_all add: Let_def)

lemma regroup2:
  fixes n :: nat
  shows "(n div 4096 * 64 + n div 64 mod 64) * 64 + n mod 64 = n"
proof -
  have "n div 4096 = n div 64 div 64" by (simp add: div_mult2_eq)
  then show ?thesis by (simp only: div_mult_mod_eq)
qed

lemma regroup3:
  fixes n :: nat
  shows "((n div 262144 * 64 + n div 4096 mod 64) * 64 + n div 64 mod 64) * 64 + n mod 64 = n"
proof -
  have "n div 262144 = n div 4096 div 64" by (simp add: div_mult2_eq)
  then show ?thesis by (simp only: div_mult_mod_eq regroup2)
qed

lemma split3a:
  fixes x y z :: nat
  assumes "x < 256" "y < 256" "z < 256"
  shows "(x * 65536 + y * 256 + z) div 65536 = x"
  using assms by simp

lemma split3c:
  fixes x y z :: nat
  assumes "x < 256" "y < 256" "z < 256"
  shows "(x * 65536 + y * 256 + z) mod 256 = z"
proof -
  have "((x * 256 + y) * 256 + z) mod 256 = z"
    using assms by (simp only: mod_mult_self3 mod_less)
  then show ?thesis by (simp add: algebra_simps)
qed

lemma split3b:
  fixes x y z :: nat
  assumes "x < 256" "y < 256" "z < 256"
  shows "(x * 65536 + y * 256 + z) div 256 mod 256 = y"
proof -
  have "((x * 256 + y) * 256 + z) div 256 = x * 256 + y"
    using assms by (simp only: div_mult_self3 div_less)
  then have "(x * 65536 + y * 256 + z) div 256 = x * 256 + y"
    by (simp add: algebra_simps)
  then show ?thesis using assms by simp
qed

lemma split2:
  fixes x y :: nat
  assumes "x < 256" "y < 256"
  shows "(x * 256 + y) * 4 div 4 div 256 = x"
    and "(x * 256 + y) * 4 div 4 mod 256 = y"
  using assms by simp_all


lemma b64_decode_body: "b64_decode (b64_body bs) = bs"
proof (induction bs rule: b64_body.induct)
  case (1 a b c rest)
  define n where "n = unat a * 65536 + unat b * 256 + unat c"
  have body: "b64_body (a # b # c # rest) =
      n div 262144 # n div 4096 mod 64 # n div 64 mod 64 # n mod 64 # b64_body rest"
    by (simp add: Let_def n_def)
  have "n div 65536 = unat a" "n div 256 mod 256 = unat b" "n mod 256 = unat c"
    unfolding n_def
    by (rule split3a split3b split3c; rule unat_byte_lt)+
  then have bytes: "(of_nat (n div 65536) :: byte) = a" "(of_nat (n div 256 mod 256) :: byte) = b"
    "(of_nat (n mod 256) :: byte) = c"
    by simp_all
  show ?case
    unfolding body b64_decode.simps Let_def regroup3 bytes
    using 1[OF refl] by simp
next
  case (2 a b)
  define n where "n = (unat a * 256 + unat b) * 4"
  have body: "b64_body [a, b] = [n div 4096, n div 64 mod 64, n mod 64]"
    by (simp add: Let_def n_def)
  have "n div 4 div 256 = unat a" "n div 4 mod 256 = unat b"
    unfolding n_def
    by (rule split2; rule unat_byte_lt)+
  then have bytes: "(of_nat (n div 4 div 256) :: byte) = a" "(of_nat (n div 4 mod 256) :: byte) = b"
    by simp_all
  show ?case
    unfolding body b64_decode.simps Let_def regroup2 bytes by simp
next
  case (3 a)
  define n where "n = unat a * 16"
  have body: "b64_body [a] = [n div 64, n mod 64]"
    by (simp add: Let_def n_def)
  have m: "n div 64 * 64 + n mod 64 = n" by (rule div_mult_mod_eq)
  have "n div 16 = unat a" unfolding n_def by simp
  then have bytes: "(of_nat (n div 16) :: byte) = a" by simp
  show ?case
    unfolding body b64_decode.simps Let_def m bytes by simp
qed simp


lemma sextets_map: "\<forall>n \<in> set ns. n < 64 \<Longrightarrow> sextets (map b64_char ns) = Some ns"
  by (induction ns) (simp_all add: b64_val_char)

lemma pad_not_ws: "\<not> ascii_whitespace 61"
  by (simp add: ascii_whitespace_def)

lemma filter_ws_encode:
  "filter (\<lambda>c. \<not> ascii_whitespace c) (b64_encode bs) = b64_encode bs"
proof -
  have "\<not> ascii_whitespace c" if "c \<in> set (b64_encode bs)" for c
    using that b64_body_lt[of bs]
    by (auto simp: b64_encode_body b64_char_not_ws pad_not_ws)
  then show ?thesis by (simp add: filter_id_conv)
qed

lemma strip_padding_append:
  fixes xs :: jsstring
  assumes len: "length (xs @ replicate k 61) mod 4 = 0"
    and nopad: "\<forall>c \<in> set (rev xs). c \<noteq> 61"
    and k: "k = 0 \<or> k = 1 \<or> k = 2"
  shows "strip_padding (xs @ replicate k 61) = xs"
proof -
  have hd: "rev xs = [] \<or> (\<exists>e r. rev xs = e # r \<and> e \<noteq> 61)"
    using nopad by (cases "rev xs") simp_all
  consider "k = 0" | "k = 1" | "k = 2" using k by blast
  then show ?thesis
  proof cases
    case 1
    have "(case rev xs of
              e1 # e2 # r \<Rightarrow> if e1 = 61 \<and> e2 = 61 then rev r
                              else if e1 = 61 then rev (e2 # r) else xs
            | [e1] \<Rightarrow> if e1 = 61 then [] else xs
            | [] \<Rightarrow> xs) = xs"
      using hd by (auto split: list.splits)
    with 1 show ?thesis by (simp add: strip_padding_def)
  next
    case 2
    have "strip_padding (xs @ [61]) = xs"
      using len hd unfolding 2 by (auto simp: strip_padding_def split: list.splits)
    with 2 show ?thesis by simp
  next
    case 3
    have "strip_padding (xs @ [61, 61]) = xs"
      using len hd unfolding 3 by (auto simp: strip_padding_def numeral_2_eq_2 split: list.splits)
    with 3 show ?thesis by (simp add: numeral_2_eq_2)
  qed
qed

lemma b64_pad_cases: "b64_pad bs = 0 \<or> b64_pad bs = 1 \<or> b64_pad bs = 2"
  unfolding b64_pad_def by linarith

lemma strip_padding_encode:
  "strip_padding (b64_encode bs) = map b64_char (b64_body bs)"
proof -
  have len: "length (map b64_char (b64_body bs) @ replicate (b64_pad bs) 61) mod 4 = 0"
    using length_b64_encode[of bs] by (simp only: b64_encode_body)
  have nopad: "\<forall>c \<in> set (rev (map b64_char (b64_body bs))). c \<noteq> 61"
    using b64_body_lt[of bs] by (auto simp: b64_char_not_pad)
  show ?thesis
    by (simp only: b64_encode_body strip_padding_append[OF len nopad b64_pad_cases])
qed

lemma atob_b64_encode: "atob (b64_encode bs) = Inr (map ucast bs)"
proof -
  have "length (b64_body bs) mod 4 \<noteq> Suc 0"
    using length_b64_body_mod[of bs] by simp
  then show ?thesis
    by (simp add: atob_def filter_ws_encode strip_padding_encode
      sextets_map b64_body_lt b64_decode_body)
qed


lemma ucast_byte_roundtrip: "(ucast (ucast (b :: byte) :: code_unit) :: byte) = b"
  by (rule ucast_up_ucast_id) (simp add: is_up)

lemma ucast_byte_le: "\<not> 255 < (ucast (b :: byte) :: code_unit)"
proof -
  have "unat b < 2 ^ 16"
    using unat_byte_lt[of b] by simp
  then have "take_bit 16 (unat b) = unat b"
    by (simp only: take_bit_nat_eq_self)
  then have "unat (ucast b :: code_unit) = unat b"
    by (simp add: unsigned_ucast_eq)
  then have "unat (ucast b :: code_unit) \<le> unat (255 :: code_unit)"
    using unat_byte_lt[of b] by simp
  then have "(ucast b :: code_unit) \<le> 255"
    by (simp only: word_le_nat_alt)
  then show ?thesis by (simp only: not_less)
qed

lemma encode_loop_eq:
  "encode_loop bytes i binary = binary @ map fromCharCode (drop i bytes)"
proof (induction bytes i binary rule: encode_loop.induct)
  case (1 bytes i binary)
  show ?case
  proof (cases "i < length bytes")
    case True
    then have "drop i bytes = bytes ! i # drop (i + 1) bytes"
      by (simp add: Cons_nth_drop_Suc)
    with True 1 show ?thesis by (subst encode_loop.simps) simp
  next
    case False
    then show ?thesis by (subst encode_loop.simps) simp
  qed
qed

lemma decode_loop_eq:
  "length bytes = length s \<Longrightarrow>
   decode_loop s i bytes = take i bytes @ map ucast (drop i s)"
proof (induction s i bytes rule: decode_loop.induct)
  case (1 s i bytes)
  show ?case
  proof (cases "i < length s")
    case True
    have d: "drop i s = s ! i # drop (i + 1) s"
      using True by (simp add: Cons_nth_drop_Suc)
    have t: "take (i + 1) (bytes[i := ucast (s ! i)]) = take i bytes @ [ucast (s ! i)]"
      using True 1(2) by (simp add: take_Suc_conv_app_nth)
    have "decode_loop s i bytes = decode_loop s (i + 1) (bytes[i := ucast (s ! i)])"
      using True by (subst decode_loop.simps) simp
    also have "\<dots> = take (i + 1) (bytes[i := ucast (s ! i)]) @ map ucast (drop (i + 1) s)"
      using True 1 by simp
    finally show ?thesis by (simp only: t d) simp
  next
    case False
    with 1(2) show ?thesis by (subst decode_loop.simps) simp
  qed
qed

lemma encode_eq: "encode bytes = Inr (b64_encode bytes)"
proof -
  have "map (\<lambda>c. ucast c :: byte) (map fromCharCode bytes) = bytes"
    by (simp add: fromCharCode_def ucast_byte_roundtrip comp_def)
  then show ?thesis
    by (simp add: encode_def encode_loop_eq btoa_def fromCharCode_def ucast_byte_le)
qed

lemma decode_eq:
  "decode base64 = (case atob base64 of Inl e \<Rightarrow> Inl e | Inr s \<Rightarrow> Inr (map ucast s))"
  by (simp add: decode_def decode_loop_eq split: sum.splits)


text \<open>
  Claim C2. For every byte sequence \<open>b\<close>, \<^verbatim>\<open>encode(b)\<close> returns a string (it does not
  throw), and \<^verbatim>\<open>decode\<close> of that string returns exactly \<open>b\<close>: the same length and the
  same byte at every index.
\<close>

theorem decode_encode_roundtrip:
  "\<exists>s. encode b = Inr s \<and> decode s = Inr b"
proof -
  have "map (\<lambda>c. ucast c :: byte) (map (\<lambda>c. ucast c :: code_unit) b) = b"
    by (simp add: ucast_byte_roundtrip comp_def)
  then have "decode (b64_encode b) = Inr b"
    by (simp add: decode_eq atob_b64_encode)
  then show ?thesis by (simp add: encode_eq)
qed

section \<open>PCM decoding\<close>

lemma length_int16_view: "length (int16_view data) = length data div 2"
  by (induction data rule: int16_view.induct) simp_all

lemma length_fill_channel:
  "length (fill_channel d n c fc i cd) = length cd"
proof (induction d n c fc i cd rule: fill_channel.induct)
  case (1 d n c fc i cd)
  show ?case
  proof (cases "of_nat i < fc")
    case True
    with 1 show ?thesis by (subst fill_channel.simps) simp
  next
    case False
    then show ?thesis by (subst fill_channel.simps) simp
  qed
qed

lemma nth_fill_channel:
  "j < length cd \<Longrightarrow>
   fill_channel d n c fc i cd ! j =
     (if i \<le> j \<and> of_nat j < fc then sample_at d (j * n + c) else cd ! j)"
proof (induction d n c fc i cd rule: fill_channel.induct)
  case (1 d n c fc i cd)
  show ?case
  proof (cases "of_nat i < fc")
    case True
    have step: "fill_channel d n c fc i cd =
        fill_channel d n c fc (i + 1) (cd[i := sample_at d (i * n + c)])"
      using True by (subst fill_channel.simps) simp
    have ih: "fill_channel d n c fc (i + 1) (cd[i := sample_at d (i * n + c)]) ! j =
        (if i + 1 \<le> j \<and> of_nat j < fc then sample_at d (j * n + c)
         else cd[i := sample_at d (i * n + c)] ! j)"
      using 1(1)[OF True] 1(2) by simp
    show ?thesis
    proof (cases "j = i")
      case True
      with \<open>of_nat i < fc\<close> 1(2) show ?thesis unfolding step ih by simp
    next
      case False
      then show ?thesis unfolding step ih by auto
    qed
  next
    case False
    have stop: "fill_channel d n c fc i cd = cd"
      using False by (subst fill_channel.simps) simp
    have "\<not> (i \<le> j \<and> of_nat j < fc)"
    proof
      assume a: "i \<le> j \<and> of_nat j < fc"
      then have "(of_nat i :: rat) \<le> of_nat j" by simp
      with a have "of_nat i < fc" by linarith
      with False show False by simp
    qed
    then show ?thesis unfolding stop by auto
  qed
qed

text \<open>
  The channels after the outer loop has run from \<open>channel\<close> on: every channel from there
  on has been filled, the others are as they were.
\<close>

lemma fill_channels_eq:
  "numberOfChannels b = n \<Longrightarrow> length (channels b) = n \<Longrightarrow>
   fill_channels d n fc ch b =
     Inr (b\<lparr>channels := map (\<lambda>c. if ch \<le> c then fill_channel d n c fc 0 (channels b ! c)
                                  else channels b ! c) [0..<n]\<rparr>)"
proof (induction d n fc ch b rule: fill_channels.induct)
  case (1 d n fc ch b)
  show ?case
  proof (cases "ch < n")
    case True
    let ?b' = "b\<lparr>channels := (channels b)[ch := fill_channel d n ch fc 0 (channels b ! ch)]\<rparr>"
    have g: "getChannelData b ch = Inr (channels b ! ch)"
      using True 1(2,3) by (simp add: getChannelData_def)
    have step: "fill_channels d n fc ch b = fill_channels d n fc (ch + 1) ?b'"
      using True g by (subst fill_channels.simps) simp
    have ih: "fill_channels d n fc (ch + 1) ?b' =
        Inr (?b'\<lparr>channels := map (\<lambda>c. if ch + 1 \<le> c
                                        then fill_channel d n c fc 0 (channels ?b' ! c)
                                        else channels ?b' ! c) [0..<n]\<rparr>)"
      using 1(1)[OF True g] 1(2,3) by simp
    have "map (\<lambda>c. if ch + 1 \<le> c then fill_channel d n c fc 0 (channels ?b' ! c)
                    else channels ?b' ! c) [0..<n]
        = map (\<lambda>c. if ch \<le> c then fill_channel d n c fc 0 (channels b ! c)
                    else channels b ! c) [0..<n]"
    proof (rule map_cong[OF refl])
      fix c assume "c \<in> set [0..<n]"
      then have "c < length (channels b)" using 1(3) by simp
      then show "(if ch + 1 \<le> c then fill_channel d n c fc 0 (channels ?b' ! c)
                  else channels ?b' ! c)
               = (if ch \<le> c then fill_channel d n c fc 0 (channels b ! c)
                  else channels b ! c)"
        by (cases "c = ch") (auto simp: nth_list_update)
    qed
    then show ?thesis unfolding step ih by simp
  next
    case False
    have stop: "fill_channels d n fc ch b = Inr b"
      using False by (subst fill_channels.simps) simp
    have "map (\<lambda>c. if ch \<le> c then fill_channel d n c fc 0 (channels b ! c)
                    else channels b ! c) [0..<n] = channels b"
      using False 1(3) by (auto intro: nth_equalityI)
    then show ?thesis unfolding stop by simp
  qed
qed

lemma frame_index_in_range:
  fixes m n i c :: nat
  assumes "i < m div n" "c < n"
  shows "i * n + c < m"
proof -
  have "i * n + c < (i + 1) * n" using assms(2) by simp
  also have "\<dots> \<le> (m div n) * n" using assms(1) by (simp only: mult_le_mono1 Suc_leI Suc_eq_plus1[symmetric])
  also have "\<dots> \<le> m" by simp
  finally show ?thesis .
qed

lemma frame_below_count:
  fixes m n i :: nat
  assumes "i < m div n"
  shows "(of_nat i :: rat) < of_nat m / of_nat n"
proof -
  have "int i < \<lfloor>(of_nat m :: rat) / of_nat n\<rfloor>"
    using assms by (simp add: floor_divide_of_nat_eq)
  then have "(of_int (int i) :: rat) + 1 \<le> of_nat m / of_nat n"
    by (simp only: less_floor_iff)
  then show ?thesis by simp
qed

lemma to_unsigned_long_frames:
  fixes m n :: nat
  assumes "m div n < 2 ^ 32"
  shows "to_unsigned_long (of_nat m / of_nat n) = m div n"
proof -
  have "(0 :: rat) \<le> of_nat m / of_nat n" by simp
  moreover have "\<lfloor>(of_nat m :: rat) / of_nat n\<rfloor> = int (m div n)"
    by (simp add: floor_divide_of_nat_eq)
  moreover have "int (m div n) mod 2 ^ 32 = int (m div n)"
    using assms by (simp add: zmod_int[symmetric] del: of_nat_div)
  ultimately show ?thesis by (simp add: to_unsigned_long_def del: of_nat_div)
qed

lemma decodeAudioData_buffer:
  assumes "even (length data)" and "1 \<le> n" and "n \<le> maxChannels ctx"
    and "minSampleRate ctx \<le> rate" and "rate \<le> maxSampleRate ctx" and "0 < rate"
    and "n \<le> length data div 2" and "length data div 2 div n < 2 ^ 32"
  shows "\<exists>buf. decodeAudioData data ctx rate n = Inr buf
           \<and> numberOfChannels buf = n \<and> sampleRate buf = rate
           \<and> bufferLength buf = length data div 2 div n
           \<and> length (channels buf) = n
           \<and> (\<forall>c < n. length (channels buf ! c) = length data div 2 div n
                 \<and> (\<forall>i < length data div 2 div n.
                       channels buf ! c ! i
                         = Num (of_int (sint (int16_view data ! (i * n + c))) / 32768)))"
proof -
  define m where "m = length data div 2"
  define frames where "frames = m div n"
  define fc :: rat where "fc = of_nat m / of_nat n"
  define b0 where "b0 = \<lparr>numberOfChannels = n, bufferLength = frames, sampleRate = rate,
                          channels = replicate n (replicate frames (Num 0))\<rparr>"
  define buf where "buf = b0\<lparr>channels :=
      map (\<lambda>c. if 0 \<le> c then fill_channel (int16_view data) n c fc 0 (channels b0 ! c)
                else channels b0 ! c) [0..<n]\<rparr>"
  have len: "length (int16_view data) = m"
    by (simp add: length_int16_view m_def)
  have pos: "0 < frames"
    using assms(2,7) by (simp add: frames_def m_def div_greater_zero_iff)
  have ul: "to_unsigned_long fc = frames"
    unfolding fc_def frames_def using assms(8) by (intro to_unsigned_long_frames) (simp add: m_def)
  have cb: "createBuffer ctx n frames rate = Inr b0"
    using assms(2-6) pos by (simp add: createBuffer_def b0_def)
  have fill: "fill_channels (int16_view data) n fc 0 b0 = Inr buf"
    unfolding buf_def by (rule fill_channels_eq) (simp_all add: b0_def)
  have run: "decodeAudioData data ctx rate n = Inr buf"
    using assms(1) by (simp add: decodeAudioData_def new_Int16Array_def len fc_def[symmetric] ul cb fill)
  have chan: "channels buf ! c = fill_channel (int16_view data) n c fc 0 (replicate frames (Num 0))"
    if "c < n" for c
    using that by (simp add: buf_def b0_def)
  have samples: "channels buf ! c ! i = Num (of_int (sint (int16_view data ! (i * n + c))) / 32768)"
    if "c < n" "i < frames" for c i
  proof -
    have "of_nat i < fc"
      using that(2) unfolding fc_def frames_def by (rule frame_below_count)
    moreover have "i * n + c < m"
      using that unfolding frames_def by (intro frame_index_in_range)
    ultimately show ?thesis
      using that by (simp add: chan nth_fill_channel sample_at_def len)
  qed
  have "numberOfChannels buf = n" "bufferLength buf = frames" "length (channels buf) = n"
    "sampleRate buf = rate"
    by (simp_all add: buf_def b0_def)
  moreover have "\<forall>c < n. length (channels buf ! c) = frames"
    by (simp add: chan length_fill_channel)
  ultimately show ?thesis
    using run samples unfolding frames_def m_def by blast
qed

text \<open>
  A buffer of even byte length that holds no complete frame is rejected: the frame count
  is truncated to zero, and \<^verbatim>\<open>createBuffer\<close> refuses a length of zero.
\<close>

lemma decodeAudioData_short_buffer:
  assumes "even (length data)" and "length data div 2 < n"
  shows "decodeAudioData data ctx rate n = Inl NotSupportedError"
proof -
  have "length data div 2 div n < 2 ^ 32" using assms(2) by simp
  then have "to_unsigned_long (of_nat (length data div 2) / of_nat n) = length data div 2 div n"
    by (rule to_unsigned_long_frames)
  then have "to_unsigned_long (of_nat (length data div 2) / of_nat n) = 0"
    using assms(2) by simp
  then show ?thesis
    using assms(1)
    by (simp add: decodeAudioData_def new_Int16Array_def length_int16_view createBuffer_def
        del: of_nat_div)
qed




section \<open>The transcript: only the last message changes\<close>

lemma frozen_refl: "frozen t t"
  by (simp add: frozen_def butlast_conv_take)

lemma frozen_append: "frozen t (t @ xs)"
  by (simp add: frozen_def butlast_conv_take)

lemma frozen_update_last: "frozen t (t[length t - 1 := m])"
  by (simp add: frozen_def butlast_conv_take)

lemma frozen_set_last: "frozen t (set_last m t)"
proof (cases "t = []")
  case True
  then show ?thesis by (simp add: set_last_def frozen_refl)
next
  case False
  then have "set_last m t = t[length t - 1 := m]" by (simp add: set_last_def)
  then show ?thesis by (simp only: frozen_update_last)
qed

lemma frozen_trans:
  assumes "frozen a b" and "frozen b c"
  shows "frozen a c"
proof -
  have le: "length a - 1 \<le> length b - 1"
    using assms(1) by (simp add: frozen_def diff_le_mono)
  have "take (length a - 1) c = take (length a - 1) (take (length b - 1) c)"
    using le by (simp add: min_absorb1)
  also have "\<dots> = take (length a - 1) (take (length b - 1) b)"
    using assms(2) by (simp add: frozen_def butlast_conv_take)
  also have "\<dots> = take (length a - 1) b"
    using le by (simp add: min_absorb1)
  also have "\<dots> = butlast a"
    using assms(1) by (simp add: frozen_def)
  finally show ?thesis
    using assms by (simp add: frozen_def)
qed

lemma frozen_append_trans: "frozen a b \<Longrightarrow> frozen a (b @ xs)"
  by (rule frozen_trans[OF _ frozen_append])

subsection \<open>The voice screen\<close>

lemma transcript_v_emit [simp]: "v_transcript (v_emit e s) = v_transcript s"
  by (simp add: v_emit_def)

lemma kept_v_emit [simp]:
  "v_status (v_emit e s) = v_status s"
  "v_isMuted (v_emit e s) = v_isMuted s"
  "v_isGeneratingReport (v_emit e s) = v_isGeneratingReport s"
  "v_sessionPromise (v_emit e s) = v_sessionPromise s"
  "v_inputAudioContext (v_emit e s) = v_inputAudioContext s"
  "v_outputAudioContext (v_emit e s) = v_outputAudioContext s"
  "v_nextStartTime (v_emit e s) = v_nextStartTime s"
  "v_audioSources (v_emit e s) = v_audioSources s"
  "v_effect_isMuted (v_emit e s) = v_effect_isMuted s"
  "v_effects (v_emit e s) = v_effects s @ [e]"
  by (simp_all add: v_emit_def)

lemma kept_stopMicrophone_voice [simp]:
  "v_transcript (stopMicrophone_voice s) = v_transcript s"
  "v_status (stopMicrophone_voice s) = v_status s"
  "v_isMuted (stopMicrophone_voice s) = v_isMuted s"
  "v_isGeneratingReport (stopMicrophone_voice s) = v_isGeneratingReport s"
  "v_sessionPromise (stopMicrophone_voice s) = v_sessionPromise s"
  "v_inputAudioContext (stopMicrophone_voice s) = v_inputAudioContext s"
  "v_outputAudioContext (stopMicrophone_voice s) = v_outputAudioContext s"
  "v_nextStartTime (stopMicrophone_voice s) = v_nextStartTime s"
  "v_audioSources (stopMicrophone_voice s) = v_audioSources s"
  by (simp_all add: stopMicrophone_voice_def Let_def)

lemma kept_closeInputContext_voice [simp]:
  "v_transcript (closeInputContext_voice s) = v_transcript s"
  "v_status (closeInputContext_voice s) = v_status s"
  "v_isMuted (closeInputContext_voice s) = v_isMuted s"
  "v_isGeneratingReport (closeInputContext_voice s) = v_isGeneratingReport s"
  "v_sessionPromise (closeInputContext_voice s) = v_sessionPromise s"
  "v_outputAudioContext (closeInputContext_voice s) = v_outputAudioContext s"
  "v_nextStartTime (closeInputContext_voice s) = v_nextStartTime s"
  "v_audioSources (closeInputContext_voice s) = v_audioSources s"
  by (simp_all add: closeInputContext_voice_def split: option.splits)

lemma kept_stopPlayback_voice [simp]:
  "v_transcript (stopPlayback_voice s) = v_transcript s"
  "v_status (stopPlayback_voice s) = v_status s"
  "v_isMuted (stopPlayback_voice s) = v_isMuted s"
  "v_isGeneratingReport (stopPlayback_voice s) = v_isGeneratingReport s"
  "v_sessionPromise (stopPlayback_voice s) = v_sessionPromise s"
  "v_inputAudioContext (stopPlayback_voice s) = v_inputAudioContext s"
  "v_nextStartTime (stopPlayback_voice s) = v_nextStartTime s"
  "v_audioSources (stopPlayback_voice s) = v_audioSources s"
  by (simp_all add: stopPlayback_voice_def split: option.splits)

lemma kept_disposeInputContext_voice [simp]:
  "v_transcript (disposeInputContext_voice s) = v_transcript s"
  "v_status (disposeInputContext_voice s) = v_status s"
  "v_isMuted (disposeInputContext_voice s) = v_isMuted s"
  "v_isGeneratingReport (disposeInputContext_voice s) = v_isGeneratingReport s"
  "v_sessionPromise (disposeInputContext_voice s) = v_sessionPromise s"
  "v_outputAudioContext (disposeInputContext_voice s) = v_outputAudioContext s"
  "v_nextStartTime (disposeInputContext_voice s) = v_nextStartTime s"
  "v_audioSources (disposeInputContext_voice s) = v_audioSources s"
  by (simp_all add: disposeInputContext_voice_def split: option.splits)

lemma kept_disposeOutputContext_voice [simp]:
  "v_transcript (disposeOutputContext_voice s) = v_transcript s"
  "v_status (disposeOutputContext_voice s) = v_status s"
  "v_isMuted (disposeOutputContext_voice s) = v_isMuted s"
  "v_isGeneratingReport (disposeOutputContext_voice s) = v_isGeneratingReport s"
  "v_sessionPromise (disposeOutputContext_voice s) = v_sessionPromise s"
  "v_inputAudioContext (disposeOutputContext_voice s) = v_inputAudioContext s"
  "v_nextStartTime (disposeOutputContext_voice s) = v_nextStartTime s"
  "v_audioSources (disposeOutputContext_voice s) = v_audioSources s"
  by (simp_all add: disposeOutputContext_voice_def split: option.splits)

lemma kept_closeSession_voice [simp]:
  "v_transcript (closeSession_voice s) = v_transcript s"
  "v_status (closeSession_voice s) = v_status s"
  "v_isMuted (closeSession_voice s) = v_isMuted s"
  "v_isGeneratingReport (closeSession_voice s) = v_isGeneratingReport s"
  "v_sessionPromise (closeSession_voice s) = v_sessionPromise s"
  "v_inputAudioContext (closeSession_voice s) = v_inputAudioContext s"
  "v_outputAudioContext (closeSession_voice s) = v_outputAudioContext s"
  "v_nextStartTime (closeSession_voice s) = v_nextStartTime s"
  "v_audioSources (closeSession_voice s) = v_audioSources s"
  by (simp_all add: closeSession_voice_def split: option.splits promise_outcome.splits)

lemma transcript_playAudio_voice [simp]:
  "v_transcript (playAudio_voice data now s) = v_transcript s"
  by (simp add: playAudio_voice_def Let_def split: option.splits sum.splits)

lemma frozen_turnComplete_voice:
  "frozen (v_transcript s) (v_transcript (turnComplete_voice s))"
  by (simp add: turnComplete_voice_def Let_def frozen_refl frozen_append frozen_append_trans)

lemma transcript_appendTranscriptions_voice [simp]:
  "v_transcript (appendTranscriptions_voice message s) = v_transcript s"
  by (simp add: appendTranscriptions_voice_def Let_def split: option.splits)

lemma transcript_onmessage_voice [simp]:
  "v_transcript (onmessage_voice message now s) = v_transcript s"
  by (simp add: onmessage_voice_def Let_def split: option.splits)

lemma frozen_callUpdaters_voice:
  "frozen (v_transcript s) (v_transcript (callUpdaters_voice n s))"
proof (induction n arbitrary: s)
  case 0
  show ?case by (simp add: frozen_refl)
next
  case (Suc n)
  show ?case
    using frozen_trans[OF frozen_turnComplete_voice[of s] Suc[of "turnComplete_voice s"]]
    by simp
qed

lemma frozen_rerender_voice: "frozen (v_transcript s) (v_transcript (rerender_voice s))"
  using frozen_callUpdaters_voice[of s "v_pendingTurnUpdates s"]
  by (simp add: rerender_voice_def)

lemma transcript_endInterview_voice [simp]:
  "v_transcript (endInterview_voice outcome s) = v_transcript s"
  by (simp add: endInterview_voice_def Let_def split: sum.splits)

lemma transcript_unmount_voice [simp]:
  "v_transcript (unmount_voice s) = v_transcript s"
  by (simp add: unmount_voice_def)

lemma frozen_step_voice: "frozen (v_transcript s) (v_transcript (step_voice e s))"
proof (cases e)
  case (VMessage message now)
  then show ?thesis by (simp add: frozen_refl)
next
  case VRender
  then show ?thesis by (simp add: frozen_rerender_voice)
next
  case (VAudioProcess inputData)
  then show ?thesis
    by (simp add: onaudioprocess_voice_def frozen_refl
        split: sum.splits option.splits promise_outcome.splits)
qed (simp_all add: frozen_refl onopen_voice_def onended_voice_def toggleMute_def
    startSession_voice_def Let_def)

lemma frozen_run_voice: "frozen (v_transcript s) (v_transcript (run_voice es s))"
proof (induction es arbitrary: s)
  case Nil
  show ?case by (simp add: frozen_refl)
next
  case (Cons e es)
  show ?case
    using frozen_trans[OF frozen_step_voice[of s e] Cons[of "step_voice e s"]] by simp
qed

lemma run_voice_append: "run_voice (es @ es') s = run_voice es' (run_voice es s)"
  by (induction es arbitrary: s) simp_all

subsection \<open>The push-to-talk screen\<close>

lemma transcript_p_emit [simp]: "p_transcript (p_emit e s) = p_transcript s"
  by (simp add: p_emit_def)

lemma kept_p_emit [simp]:
  "p_status (p_emit e s) = p_status s"
  "p_isGeneratingReport (p_emit e s) = p_isGeneratingReport s"
  "p_isRecording (p_emit e s) = p_isRecording s"
  "p_isAiTyping (p_emit e s) = p_isAiTyping s"
  "p_chat (p_emit e s) = p_chat s"
  "p_sessionPromise (p_emit e s) = p_sessionPromise s"
  "p_audioContexts (p_emit e s) = p_audioContexts s"
  "p_audioStream (p_emit e s) = p_audioStream s"
  "p_scriptProcessor (p_emit e s) = p_scriptProcessor s"
  "p_mediaStreamSource (p_emit e s) = p_mediaStreamSource s"
  "p_liveTranscription (p_emit e s) = p_liveTranscription s"
  "p_cleanupPerformed (p_emit e s) = p_cleanupPerformed s"
  "p_currentAiText (p_emit e s) = p_currentAiText s"
  "p_effects (p_emit e s) = p_effects s @ [e]"
  by (simp_all add: p_emit_def)

lemma kept_stopMicrophoneStream [simp]:
  "p_transcript (stopMicrophoneStream s) = p_transcript s"
  "p_status (stopMicrophoneStream s) = p_status s"
  "p_isGeneratingReport (stopMicrophoneStream s) = p_isGeneratingReport s"
  "p_isRecording (stopMicrophoneStream s) = p_isRecording s"
  "p_isAiTyping (stopMicrophoneStream s) = p_isAiTyping s"
  "p_chat (stopMicrophoneStream s) = p_chat s"
  "p_sessionPromise (stopMicrophoneStream s) = p_sessionPromise s"
  "p_audioContexts (stopMicrophoneStream s) = p_audioContexts s"
  "p_scriptProcessor (stopMicrophoneStream s) = p_scriptProcessor s"
  "p_mediaStreamSource (stopMicrophoneStream s) = p_mediaStreamSource s"
  "p_liveTranscription (stopMicrophoneStream s) = p_liveTranscription s"
  "p_cleanupPerformed (stopMicrophoneStream s) = p_cleanupPerformed s"
  "p_currentAiText (stopMicrophoneStream s) = p_currentAiText s"
  by (simp_all add: stopMicrophoneStream_def)

lemma kept_disconnectAudioProcessing [simp]:
  "p_transcript (disconnectAudioProcessing s) = p_transcript s"
  "p_status (disconnectAudioProcessing s) = p_status s"
  "p_isGeneratingReport (disconnectAudioProcessing s) = p_isGeneratingReport s"
  "p_isRecording (disconnectAudioProcessing s) = p_isRecording s"
  "p_isAiTyping (disconnectAudioProcessing s) = p_isAiTyping s"
  "p_chat (disconnectAudioProcessing s) = p_chat s"
  "p_sessionPromise (disconnectAudioProcessing s) = p_sessionPromise s"
  "p_audioContexts (disconnectAudioProcessing s) = p_audioContexts s"
  "p_audioStream (disconnectAudioProcessing s) = p_audioStream s"
  "p_liveTranscription (disconnectAudioProcessing s) = p_liveTranscription s"
  "p_cleanupPerformed (disconnectAudioProcessing s) = p_cleanupPerformed s"
  "p_currentAiText (disconnectAudioProcessing s) = p_currentAiText s"
  by (simp_all add: disconnectAudioProcessing_def Let_def)

lemma kept_closeAudioContexts [simp]:
  "p_transcript (closeAudioContexts s) = p_transcript s"
  "p_status (closeAudioContexts s) = p_status s"
  "p_isGeneratingReport (closeAudioContexts s) = p_isGeneratingReport s"
  "p_isRecording (closeAudioContexts s) = p_isRecording s"
  "p_isAiTyping (closeAudioContexts s) = p_isAiTyping s"
  "p_chat (closeAudioContexts s) = p_chat s"
  "p_sessionPromise (closeAudioContexts s) = p_sessionPromise s"
  "p_audioStream (closeAudioContexts s) = p_audioStream s"
  "p_scriptProcessor (closeAudioContexts s) = p_scriptProcessor s"
  "p_mediaStreamSource (closeAudioContexts s) = p_mediaStreamSource s"
  "p_liveTranscription (closeAudioContexts s) = p_liveTranscription s"
  "p_cleanupPerformed (closeAudioContexts s) = p_cleanupPerformed s"
  "p_currentAiText (closeAudioContexts s) = p_currentAiText s"
  by (simp_all add: closeAudioContexts_def split: option.splits prod.splits)

lemma kept_closeLiveSession [simp]:
  "p_transcript (closeLiveSession s) = p_transcript s"
  "p_status (closeLiveSession s) = p_status s"
  "p_isGeneratingReport (closeLiveSession s) = p_isGeneratingReport s"
  "p_isRecording (closeLiveSession s) = p_isRecording s"
  "p_isAiTyping (closeLiveSession s) = p_isAiTyping s"
  "p_chat (closeLiveSession s) = p_chat s"
  "p_audioContexts (closeLiveSession s) = p_audioContexts s"
  "p_audioStream (closeLiveSession s) = p_audioStream s"
  "p_scriptProcessor (closeLiveSession s) = p_scriptProcessor s"
  "p_mediaStreamSource (closeLiveSession s) = p_mediaStreamSource s"
  "p_liveTranscription (closeLiveSession s) = p_liveTranscription s"
  "p_cleanupPerformed (closeLiveSession s) = p_cleanupPerformed s"
  "p_currentAiText (closeLiveSession s) = p_currentAiText s"
  by (simp_all add: closeLiveSession_def split: option.splits promise_outcome.splits)

lemma kept_cleanupLiveSession [simp]:
  "p_transcript (cleanupLiveSession s) = p_transcript s"
  "p_status (cleanupLiveSession s) = p_status s"
  "p_isGeneratingReport (cleanupLiveSession s) = p_isGeneratingReport s"
  "p_isRecording (cleanupLiveSession s) = p_isRecording s"
  "p_isAiTyping (cleanupLiveSession s) = p_isAiTyping s"
  "p_chat (cleanupLiveSession s) = p_chat s"
  "p_liveTranscription (cleanupLiveSession s) = p_liveTranscription s"
  "p_currentAiText (cleanupLiveSession s) = p_currentAiText s"
  "p_cleanupPerformed (cleanupLiveSession s) = True"
  by (simp_all add: cleanupLiveSession_def)

lemma transcript_streamFinally [simp]: "p_transcript (streamFinally s) = p_transcript s"
  by (simp add: streamFinally_def)

lemma transcript_streamFailed [simp]: "p_transcript (streamFailed m s) = p_transcript s"
  by (simp add: streamFailed_def)

lemma frozen_update_last_Suc: "frozen t (t[length t - Suc 0 := m])"
  using frozen_update_last[of t m] by simp

lemma frozen_finalizeUserMessage: "frozen t (finalizeUserMessage u t)"
  by (simp add: finalizeUserMessage_def frozen_refl frozen_update_last_Suc)

lemma frozen_handleStartRecording:
  "frozen (p_transcript s)
     (p_transcript (handleStartRecording apiKey micGranted inCtx outCtx session s))"
  by (simp add: handleStartRecording_def Let_def frozen_refl frozen_append)

lemma frozen_onmessage_ptt: "frozen (p_transcript s) (p_transcript (onmessage_ptt message s))"
  by (simp add: onmessage_ptt_def frozen_refl frozen_set_last split: option.splits)

lemma frozen_onChunk: "frozen (p_transcript s) (p_transcript (onChunk chunk s))"
  by (simp add: onChunk_def frozen_refl frozen_set_last split: option.splits)

lemma frozen_handleStopRecording:
  "frozen (p_transcript s) (p_transcript (handleStopRecording streamOpened s))"
proof -
  let ?u = "trim (p_liveTranscription
      (cleanupLiveSession (s\<lparr>p_isRecording := False, p_status := utf16 ''Processing answer...''\<rparr>)))"
  have a: "frozen (p_transcript s) (finalizeUserMessage ?u (p_transcript s))"
    by (rule frozen_finalizeUserMessage)
  have b: "frozen (p_transcript s) (finalizeUserMessage ?u (p_transcript s) @ xs)" for xs
    by (rule frozen_append_trans[OF a])
  show ?thesis
    using a b by (simp add: handleStopRecording_def Let_def frozen_refl)
qed

lemma transcript_endInterview_ptt [simp]:
  "p_transcript (endInterview_ptt outcome s) = p_transcript s"
  by (simp add: endInterview_ptt_def Let_def split: sum.splits)

lemma frozen_step_ptt: "frozen (p_transcript s) (p_transcript (step_ptt e s))"
proof (cases e)
  case (PAudioProcess inputData)
  then show ?thesis
    by (simp add: onaudioprocess_ptt_def frozen_refl
        split: sum.splits option.splits promise_outcome.splits)
next
  case (PStreamEnd failure)
  then show ?thesis
    by (simp add: onStreamEnd_def frozen_refl split: option.splits)
qed (simp_all add: frozen_refl onopen_ptt_def frozen_handleStartRecording
    frozen_onmessage_ptt frozen_onChunk frozen_handleStopRecording)

lemma frozen_run_ptt: "frozen (p_transcript s) (p_transcript (run_ptt es s))"
proof (induction es arbitrary: s)
  case Nil
  show ?case by (simp add: frozen_refl)
next
  case (Cons e es)
  show ?case
    using frozen_trans[OF frozen_step_ptt[of s e] Cons[of "step_ptt e s"]] by simp
qed

text \<open>
  Claim C1. A message is final once no later event changes it; a message that a later
  event may still change is in progress. Take any events \<open>es\<close> from the start of a
  screen (the voice screen with its empty transcript; the push-to-talk screen as
  \<^verbatim>\<open>startConversation\<close> leaves it) and observe the transcript. Whatever events \<open>es'\<close>
  follow, every message of the observed transcript but its last is still there, at the
  same position and unchanged. So at every observation point at most one message is in
  progress, and it is the last one.
\<close>

theorem transcript_all_but_last_final:
  "take (length (v_transcript (run_voice es init_voice)) - 1)
        (v_transcript (run_voice es' (run_voice es init_voice)))
     = butlast (v_transcript (run_voice es init_voice))
   \<and> take (length (p_transcript (run_ptt ps (startConversation streamOpened init_ptt))) - 1)
        (p_transcript (run_ptt ps' (run_ptt ps (startConversation streamOpened init_ptt))))
     = butlast (p_transcript (run_ptt ps (startConversation streamOpened init_ptt)))"
  using frozen_run_voice[of "run_voice es init_voice" es']
    frozen_run_ptt[of "run_ptt ps (startConversation streamOpened init_ptt)" ps']
  by (simp add: frozen_def)

section \<open>Turn-complete finalization on the voice screen\<close>

lemma blank_iff: "blank s \<longleftrightarrow> (\<forall>c \<in> set s. js_whitespace c)"
  by (simp add: blank_def dropWhile_eq_Nil_conv)

lemma trim_empty_iff: "trim s = [] \<longleftrightarrow> blank s"
proof
  assume "trim s = []"
  then have all: "\<forall>c \<in> set (dropWhile js_whitespace s). js_whitespace c"
    by (simp add: trim_def dropWhile_eq_Nil_conv)
  show "blank s"
  proof (cases "dropWhile js_whitespace s")
    case Nil
    then show ?thesis by (simp add: blank_def)
  next
    case (Cons c cs)
    then have "\<not> js_whitespace c" using hd_dropWhile[of js_whitespace s] by simp
    with all Cons show ?thesis by simp
  qed
next
  assume "blank s"
  then have d: "dropWhile js_whitespace s = []" by (simp only: blank_def)
  show "trim s = []" by (simp only: trim_def d rev.simps dropWhile.simps)
qed

lemma truthy_trim: "truthy (trim s) \<longleftrightarrow> \<not> blank s"
  by (simp add: truthy_def trim_empty_iff)

lemma transcript_turnComplete_voice:
  "v_transcript (turnComplete_voice s) =
     v_transcript s
     @ (if blank (v_currentInputTranscription s) then []
        else [\<lparr>speaker = USER, msg_text = trim (v_currentInputTranscription s)\<rparr>])
     @ (if blank (v_currentOutputTranscription s) then []
        else [\<lparr>speaker = AI, msg_text = trim (v_currentOutputTranscription s)\<rparr>])"
  by (simp add: turnComplete_voice_def Let_def truthy_trim)

lemma reset_turnComplete_voice:
  "v_currentInputTranscription (turnComplete_voice s) = []
   \<and> v_currentOutputTranscription (turnComplete_voice s) = []"
  by (simp add: turnComplete_voice_def Let_def)

lemma onmessage_inputFragment:
  "onmessage_voice (inputFragment t) now s =
     s\<lparr>v_currentInputTranscription := v_currentInputTranscription s @ t\<rparr>"
  by (simp add: onmessage_voice_def appendTranscriptions_voice_def inputFragment_def)

lemma onmessage_turnCompleteSignal:
  "onmessage_voice turnCompleteSignal now s =
     s\<lparr>v_pendingTurnUpdates := Suc (v_pendingTurnUpdates s)\<rparr>"
  by (simp add: onmessage_voice_def appendTranscriptions_voice_def turnCompleteSignal_def)

lemma run_inputFragments:
  "run_voice (map (\<lambda>f. VMessage (inputFragment f) now) fs) s =
     s\<lparr>v_currentInputTranscription := v_currentInputTranscription s @ concat fs\<rparr>"
  by (induction fs arbitrary: s) (simp_all add: onmessage_inputFragment)

lemma rerender_one_update:
  "v_pendingTurnUpdates s = Suc 0 \<Longrightarrow>
   rerender_voice s = (turnComplete_voice s)\<lparr>v_pendingTurnUpdates := 0\<rparr>"
  by (simp add: rerender_voice_def)

lemma trim_Hello: "trim (utf16 ''Hel'' @ utf16 ''lo'') = utf16 ''Hello''"
  by (simp add: trim_def utf16_def js_whitespace_def)

lemma not_blank_Hello: "\<not> blank (utf16 ''Hel'' @ utf16 ''lo'')"
  by (simp add: blank_def utf16_def js_whitespace_def)

text \<open>
  What the code does when the component renders right after the turn-complete signal,
  with no message in between: from a state with nothing accumulated and no pending
  updater, the fragments \<open>Hel\<close> and \<open>lo\<close>, the signal and the render append exactly
  the USER message \<open>Hello\<close>; input fragments are concatenated in arrival order; and
  the render after a signal appends, for the user and then for the AI, the trimmed
  accumulated text, nothing for a blank one, and resets both accumulations.
\<close>

lemma turn_complete_rendered_at_once:
  "v_transcript
     (run_voice [VMessage (inputFragment (utf16 ''Hel'')) t1,
                 VMessage (inputFragment (utf16 ''lo'')) t2,
                 VMessage turnCompleteSignal t3, VRender]
        (s\<lparr>v_currentInputTranscription := [], v_currentOutputTranscription := [],
            v_pendingTurnUpdates := 0\<rparr>))
     = v_transcript s @ [\<lparr>speaker = USER, msg_text = utf16 ''Hello''\<rparr>]
   \<and> v_currentInputTranscription (run_voice (map (\<lambda>f. VMessage (inputFragment f) now) fs) s)
     = v_currentInputTranscription s @ concat fs
   \<and> v_transcript
       (run_voice [VMessage turnCompleteSignal now, VRender] (s\<lparr>v_pendingTurnUpdates := 0\<rparr>))
     = v_transcript s
       @ (if blank (v_currentInputTranscription s) then []
          else [\<lparr>speaker = USER, msg_text = trim (v_currentInputTranscription s)\<rparr>])
       @ (if blank (v_currentOutputTranscription s) then []
          else [\<lparr>speaker = AI, msg_text = trim (v_currentOutputTranscription s)\<rparr>])
   \<and> v_currentInputTranscription
       (run_voice [VMessage turnCompleteSignal now, VRender] (s\<lparr>v_pendingTurnUpdates := 0\<rparr>))
     = []
   \<and> v_currentOutputTranscription
       (run_voice [VMessage turnCompleteSignal now, VRender] (s\<lparr>v_pendingTurnUpdates := 0\<rparr>))
     = []"
proof -
  have "blank []" by (simp add: blank_def)
  then show ?thesis
    by (simp add: onmessage_inputFragment onmessage_turnCompleteSignal run_inputFragments
        rerender_one_update transcript_turnComplete_voice reset_turnComplete_voice
        trim_Hello not_blank_Hello)
qed

text \<open>
  Claim C4 fails when a message arrives between the turn-complete signal and the render.
  The accumulated text is read, trimmed and reset by the updater, and the updater is
  called at the render. After \<open>Hel\<close>, \<open>lo\<close> and the signal, a fragment of the next
  turn that arrives before the render is finalized with this turn: the message appended
  is \<open>Hello there\<close>, not \<open>Hello\<close>. And when nothing is accumulated at the signal, a
  fragment that arrives before the render is appended as a message all the same.
\<close>

theorem turn_complete_reads_at_render:
  "v_transcript
     (run_voice [VMessage (inputFragment (utf16 ''Hel'')) t1,
                 VMessage (inputFragment (utf16 ''lo'')) t2,
                 VMessage turnCompleteSignal t3,
                 VMessage (inputFragment (utf16 '' there'')) t4, VRender]
        (s\<lparr>v_currentInputTranscription := [], v_currentOutputTranscription := [],
            v_pendingTurnUpdates := 0\<rparr>))
     = v_transcript s @ [\<lparr>speaker = USER, msg_text = utf16 ''Hello there''\<rparr>]
   \<and> v_transcript
       (run_voice [VMessage turnCompleteSignal t1,
                   VMessage (inputFragment (utf16 ''Hi'')) t2, VRender]
          (s\<lparr>v_currentInputTranscription := [], v_currentOutputTranscription := [],
              v_pendingTurnUpdates := 0\<rparr>))
     = v_transcript s @ [\<lparr>speaker = USER, msg_text = utf16 ''Hi''\<rparr>]"
proof -
  have a: "trim (utf16 ''Hel'' @ utf16 ''lo'' @ utf16 '' there'') = utf16 ''Hello there''"
    by (simp add: trim_def utf16_def js_whitespace_def)
  have b: "\<not> blank (utf16 ''Hel'' @ utf16 ''lo'' @ utf16 '' there'')"
    by (simp add: blank_def utf16_def js_whitespace_def)
  have c: "trim (utf16 ''Hi'') = utf16 ''Hi''" "\<not> blank (utf16 ''Hi'')"
    by (simp_all add: trim_def blank_def utf16_def js_whitespace_def)
  have d: "blank []" by (simp add: blank_def)
  show ?thesis
    using a b c d
    by (simp add: onmessage_inputFragment onmessage_turnCompleteSignal
        rerender_one_update transcript_turnComplete_voice)
qed

section \<open>Push-to-talk: a recording without speech\<close>







section \<open>Teardown\<close>

lemma releases_stopMicrophoneStream:
  "filter is_release (p_effects (stopMicrophoneStream s))
     = filter is_release (p_effects s) @ (if p_audioStream s then [TrackStop] else [])"
  by (simp add: stopMicrophoneStream_def)

lemma releases_disconnectAudioProcessing:
  "filter is_release (p_effects (disconnectAudioProcessing s))
     = filter is_release (p_effects s)
       @ (if p_scriptProcessor s then [ProcessorDisconnect] else [])
       @ (if p_mediaStreamSource s then [SourceDisconnect] else [])"
  by (simp add: disconnectAudioProcessing_def Let_def)

lemma releases_closeAudioContexts:
  "filter is_release (p_effects (closeAudioContexts s))
     = filter is_release (p_effects s)
       @ (case p_audioContexts s of
            None \<Rightarrow> []
          | Some (input, output) \<Rightarrow>
              if ctxState input = Closed then [InputContextClose]
              else [InputContextClose, OutputContextClose])"
  by (simp add: closeAudioContexts_def split: option.splits prod.splits)

lemma releases_closeLiveSession:
  "filter is_release (p_effects (closeLiveSession s))
     = filter is_release (p_effects s)
       @ (if p_sessionPromise s = Some Resolved then [SessionClose] else [])"
  by (simp add: closeLiveSession_def split: option.splits promise_outcome.splits)

lemma releases_cleanupLiveSession:
  "filter is_release (p_effects (cleanupLiveSession s))
     = filter is_release (p_effects s) @ cleanup_calls s"
  by (simp add: cleanupLiveSession_def cleanup_calls_def releases_closeLiveSession
      releases_closeAudioContexts releases_disconnectAudioProcessing
      releases_stopMicrophoneStream)

lemma distinct_cleanup_calls: "distinct (cleanup_calls s)"
  by (simp add: cleanup_calls_def split: option.splits prod.splits)

lemma cleanupLiveSession_again: "cleanupLiveSession (cleanupLiveSession s) = cleanupLiveSession s"
proof -
  have "p_cleanupPerformed (cleanupLiveSession s)" by simp
  then show ?thesis by (subst cleanupLiveSession_def) simp
qed

lemma cleanup_uninterrupted: "cleanup_finish 3 (cleanup_start s) = cleanupLiveSession s"
proof (cases "p_cleanupPerformed s")
  case True
  then show ?thesis by (simp add: cleanup_start_def cleanupLiveSession_def)
next
  case False
  define s3 where "s3 = disconnectAudioProcessing (stopMicrophoneStream s)"
  have fin: "cleanup_finish (Suc n) (cleanup_session x)
      = (closeLiveSession x)\<lparr>p_cleanupPerformed := True\<rparr>" for n x
    by (simp add: cleanup_session_def closeLiveSession_def
        split: option.splits promise_outcome.splits)
  have "cleanup_finish 3 (cleanup_start s)
      = (closeLiveSession (closeAudioContexts s3))\<lparr>p_cleanupPerformed := True\<rparr>"
  proof (cases "p_audioContexts s3")
    case None
    then show ?thesis
      using False by (simp add: cleanup_start_def s3_def[symmetric] fin closeAudioContexts_def
          numeral_3_eq_3)
  next
    case (Some cs)
    obtain inp outp where cs: "cs = (inp, outp)" by (cases cs)
    show ?thesis
      using False Some cs
      by (simp add: cleanup_start_def s3_def[symmetric] fin closeAudioContexts_def
          numeral_3_eq_3 p_emit_def)
  qed
  then show ?thesis using False by (simp add: cleanupLiveSession_def s3_def)
qed

lemma cleanup_calls_done: "p_cleanupPerformed s \<Longrightarrow> cleanup_calls s = []"
  by (simp add: cleanup_calls_def)

lemma performed_endInterview_ptt: "p_cleanupPerformed (endInterview_ptt outcome s)"
  by (simp add: endInterview_ptt_def Let_def p_emit_def split: sum.splits)

lemma releases_endInterview_ptt:
  "filter is_release (p_effects (endInterview_ptt outcome s))
     = filter is_release (p_effects s) @ cleanup_calls s"
proof -
  let ?s0 = "s\<lparr>p_status := utf16 ''Ending session...'', p_isRecording := False,
               p_isAiTyping := False\<rparr>"
  have "cleanup_calls ?s0 = cleanup_calls s" by (simp add: cleanup_calls_def)
  then show ?thesis
    using releases_cleanupLiveSession[of ?s0]
    by (simp add: endInterview_ptt_def Let_def p_emit_def split: sum.splits)
qed

lemma performed_handleStopRecording:
  "p_isRecording s \<Longrightarrow> p_cleanupPerformed (handleStopRecording streamOpened s)"
  by (simp add: handleStopRecording_def Let_def streamFinally_def streamFailed_def p_emit_def)

lemma releases_handleStopRecording:
  assumes "p_isRecording s"
  shows "filter is_release (p_effects (handleStopRecording streamOpened s))
     = filter is_release (p_effects s) @ cleanup_calls s"
proof -
  let ?s0 = "s\<lparr>p_isRecording := False, p_status := utf16 ''Processing answer...''\<rparr>"
  have "cleanup_calls ?s0 = cleanup_calls s" by (simp add: cleanup_calls_def)
  then show ?thesis
    using assms releases_cleanupLiveSession[of ?s0]
    by (simp add: handleStopRecording_def Let_def streamFinally_def streamFailed_def p_emit_def)
qed

text \<open>
  Calls strictly in succession, each running to its end before the next begins. A second
  \<^verbatim>\<open>cleanupLiveSession\<close> changes nothing. \<^verbatim>\<open>endInterview\<close> makes the release calls of
  one cleanup, none twice, and none at all when the flag is set; a second
  \<^verbatim>\<open>endInterview\<close>, or the disposal on unmount after it, makes no further release call.
  In the run shown (record, stop, end the interview with a failing report, end it again,
  unmount) each resource of the live session is released once.
\<close>

lemma teardown_in_succession_ptt:
  "cleanupLiveSession (cleanupLiveSession s) = cleanupLiveSession s
   \<and> filter is_release (p_effects (endInterview_ptt o1 s))
       = filter is_release (p_effects s) @ cleanup_calls s
   \<and> distinct (cleanup_calls s)
   \<and> filter is_release (p_effects (endInterview_ptt o2 (endInterview_ptt o1 s)))
       = filter is_release (p_effects (endInterview_ptt o1 s))
   \<and> filter is_release (p_effects (cleanupLiveSession (endInterview_ptt o1 s)))
       = filter is_release (p_effects (endInterview_ptt o1 s))
   \<and> filter is_release
         (p_effects
            (run_ptt [PStreamEnd None,
                      PStartRecording True True example_context example_context Resolved,
                      POpen, PStopRecording True, PEndInterview (Inl GenericError),
                      PEndInterview (Inr example_report), PUnmount]
               (startConversation True init_ptt)))
       = [TrackStop, ProcessorDisconnect, SourceDisconnect, InputContextClose,
          OutputContextClose, SessionClose]"
proof -
  have done1: "cleanup_calls (endInterview_ptt o1 s) = []"
    by (rule cleanup_calls_done[OF performed_endInterview_ptt])
  let ?live = "run_ptt [PStreamEnd None,
                        PStartRecording True True example_context example_context Resolved,
                        POpen]
                 (startConversation True init_ptt)"
  have live: "p_isRecording ?live" "filter is_release (p_effects ?live) = []"
    "cleanup_calls ?live = [TrackStop, ProcessorDisconnect, SourceDisconnect,
        InputContextClose, OutputContextClose, SessionClose]"
    by (simp_all add: cleanup_calls_def handleStartRecording_def onopen_ptt_def
        onStreamEnd_def streamFinally_def startConversation_def init_ptt_def Let_def
        example_context_def p_emit_def)
  have stopped: "p_cleanupPerformed (handleStopRecording True ?live)"
    by (rule performed_handleStopRecording[OF live(1)])
  have "run_ptt [PStreamEnd None,
                 PStartRecording True True example_context example_context Resolved,
                 POpen, PStopRecording True, PEndInterview (Inl GenericError),
                 PEndInterview (Inr example_report), PUnmount]
          (startConversation True init_ptt)
      = cleanupLiveSession
          (endInterview_ptt (Inr example_report)
             (endInterview_ptt (Inl GenericError) (handleStopRecording True ?live)))"
    by simp
  then have run: "filter is_release
         (p_effects
            (run_ptt [PStreamEnd None,
                      PStartRecording True True example_context example_context Resolved,
                      POpen, PStopRecording True, PEndInterview (Inl GenericError),
                      PEndInterview (Inr example_report), PUnmount]
               (startConversation True init_ptt)))
       = [TrackStop, ProcessorDisconnect, SourceDisconnect, InputContextClose,
          OutputContextClose, SessionClose]"
    by (simp only: releases_cleanupLiveSession releases_endInterview_ptt
        cleanup_calls_done[OF performed_endInterview_ptt] cleanup_calls_done[OF stopped]
        releases_handleStopRecording[OF live(1)] live(2,3) append_Nil append_Nil2)
  show ?thesis
    using run
    by (simp only: cleanupLiveSession_again releases_endInterview_ptt distinct_cleanup_calls
        releases_cleanupLiveSession done1 append_Nil2 simp_thms)
qed

text \<open>
  The voice screen has no flag. After \<^verbatim>\<open>endInterview\<close> there, the disposal on unmount
  calls every release again, and so does a second \<^verbatim>\<open>endInterview\<close> for the tracks, the
  nodes and the session.
\<close>

lemma teardown_voice_repeats:
  "filter is_release
     (v_effects (unmount_voice (endInterview_voice (Inr example_report) live_voice)))
     = [TrackStop, ProcessorDisconnect, SourceDisconnect, InputContextClose,
        OutputContextClose, SessionClose,
        TrackStop, ProcessorDisconnect, SourceDisconnect, InputContextClose,
        OutputContextClose, SessionClose]
   \<and> filter is_release
       (v_effects (endInterview_voice (Inl GenericError)
                     (endInterview_voice (Inl GenericError) live_voice)))
     = [TrackStop, ProcessorDisconnect, SourceDisconnect, InputContextClose,
        OutputContextClose, SessionClose,
        TrackStop, ProcessorDisconnect, SourceDisconnect, SessionClose]"
  by (simp add: live_voice_def onopen_voice_def startSession_voice_def init_voice_def
      endInterview_voice_def unmount_voice_def stopMicrophone_voice_def
      closeInputContext_voice_def stopPlayback_voice_def closeSession_voice_def
      disposeInputContext_voice_def disposeOutputContext_voice_def v_emit_def
      example_context_def Let_def)

lemma live_ptt_state:
  "live_ptt =
     \<lparr>p_status = utf16 ''Listening...'',
      p_transcript = [\<lparr>speaker = AI, msg_text = []\<rparr>,
                      \<lparr>speaker = USER, msg_text = utf16 ''...''\<rparr>],
      p_isGeneratingReport = False, p_isRecording = True, p_isAiTyping = False,
      p_chat = True, p_sessionPromise = Some Resolved,
      p_audioContexts = Some (example_context, example_context), p_audioStream = True,
      p_scriptProcessor = True, p_mediaStreamSource = True, p_liveTranscription = [],
      p_cleanupPerformed = False, p_currentAiText = None,
      p_effects = [ChatSend (utf16 ''Start the interview now.'')]\<rparr>"
  by (simp add: live_ptt_def handleStartRecording_def onopen_ptt_def onStreamEnd_def
      streamFinally_def startConversation_def init_ptt_def Let_def p_emit_def)

text \<open>
  Claim C5 fails when the second teardown begins while the first is suspended. The flag
  is tested at the start of \<^verbatim>\<open>cleanupLiveSession\<close> and set at its end, after the
  \<^verbatim>\<open>await\<close>s, so the second call passes the test. From a running recording, Stop
  Recording followed by End Interview before the first \<^verbatim>\<open>close()\<close> has settled: the
  input context is closed twice; and when the second call ends first, it clears
  \<open>audioContextsRef\<close>, the first call then fails to read it, and the output context is
  never closed.
\<close>

theorem teardown_overlapping_ptt:
  "filter is_release (p_effects (overlapping_stop_and_end True live_ptt))
     = [TrackStop, ProcessorDisconnect, SourceDisconnect, InputContextClose,
        InputContextClose, SessionClose]
   \<and> filter is_release (p_effects (overlapping_stop_and_end False live_ptt))
     = [TrackStop, ProcessorDisconnect, SourceDisconnect, InputContextClose,
        InputContextClose, OutputContextClose, SessionClose]
   \<and> p_cleanupPerformed (overlapping_stop_and_end True live_ptt)
   \<and> p_cleanupPerformed (overlapping_stop_and_end False live_ptt)"
  by (simp add: overlapping_stop_and_end_def live_ptt_state cleanup_start_def
      cleanup_session_def stopMicrophoneStream_def disconnectAudioProcessing_def
      p_emit_def example_context_def Let_def numeral_3_eq_3)

section \<open>Playback scheduling on the voice screen\<close>

lemma duration_nonneg:
  assumes "decodeAudioData data ctx rate n = Inr buf"
  shows "0 \<le> duration buf"
proof -
  let ?d16 = "int16_view data"
  let ?fc = "(of_nat (length ?d16) :: rat) / of_nat n"
  from assms obtain b0 where cb: "createBuffer ctx n (to_unsigned_long ?fc) rate = Inr b0"
    and fill: "fill_channels ?d16 n ?fc 0 b0 = Inr buf"
    by (auto simp: decodeAudioData_def new_Int16Array_def Let_def split: if_splits sum.splits)
  from cb have b0: "numberOfChannels b0 = n" "length (channels b0) = n" "0 < sampleRate b0"
    by (auto simp: createBuffer_def split: if_splits)
  from fill fill_channels_eq[OF b0(1,2), of ?d16 ?fc 0]
  have "bufferLength buf = bufferLength b0" "sampleRate buf = sampleRate b0" by auto
  then show ?thesis using b0(3) by (simp add: duration_def)
qed

lemma playback_starts_append [simp]:
  "playback_starts (xs @ ys) = playback_starts xs @ playback_starts ys"
  by (simp add: playback_starts_def)

lemma playback_starts_simps [simp]:
  "playback_starts [] = []"
  "playback_starts (e # es) = playback_start e @ playback_starts es"
  by (simp_all add: playback_starts_def)

lemma playback_starts_stops [simp]:
  "playback_starts (map (\<lambda>clip. PlaybackStop (fst clip)) cs) = []"
  by (induction cs) simp_all

lemma ends_by_append [simp]: "ends_by t (xs @ ys) \<longleftrightarrow> ends_by t xs \<and> ends_by t ys"
  by (induction xs) auto

lemma ends_by_mono: "ends_by t cs \<Longrightarrow> t \<le> t' \<Longrightarrow> ends_by t' cs"
  by (induction cs) auto

lemma no_overlap_snoc:
  "no_overlap (cs @ [(when, d)]) \<longleftrightarrow> no_overlap cs \<and> ends_by when cs"
proof (induction cs)
  case Nil
  show ?case by simp
next
  case (Cons c cs)
  obtain w e where c: "c = (w, e)" by (cases c)
  have "starts_from t (cs @ [(when, d)]) \<longleftrightarrow> starts_from t cs \<and> t \<le> when" for t
    by (induction cs) auto
  with Cons c show ?case by auto
qed

text \<open>The scheduling invariant: no two started clips overlap, and all end by the cursor.\<close>

lemma sched_playAudio_voice:
  assumes "no_overlap (playback_starts (v_effects s))"
    and "ends_by (v_nextStartTime s) (playback_starts (v_effects s))"
  shows "no_overlap (playback_starts (v_effects (playAudio_voice data now s)))
       \<and> ends_by (v_nextStartTime (playAudio_voice data now s))
            (playback_starts (v_effects (playAudio_voice data now s)))
       \<and> v_nextStartTime s \<le> v_nextStartTime (playAudio_voice data now s)"
proof (cases "v_outputAudioContext s")
  case None
  with assms show ?thesis by (simp add: playAudio_voice_def Let_def)
next
  case (Some ctx)
  let ?c = "max (v_nextStartTime s) now"
  have up: "ends_by ?c (playback_starts (v_effects s))"
    by (rule ends_by_mono[OF assms(2)]) simp
  show ?thesis
  proof (cases "decode data")
    case (Inl e)
    with Some assms(1) up show ?thesis by (simp add: playAudio_voice_def Let_def)
  next
    case (Inr bytes)
    show ?thesis
    proof (cases "decodeAudioData bytes ctx 24000 1")
      case (Inl e)
      with Some Inr assms(1) up show ?thesis by (simp add: playAudio_voice_def Let_def)
    next
      case buf: (Inr audioBuffer)
      have d: "0 \<le> duration audioBuffer" by (rule duration_nonneg[OF buf])
      have up2: "ends_by (?c + duration audioBuffer) (playback_starts (v_effects s))"
        by (rule ends_by_mono[OF up]) (simp add: d)
      have mono: "v_nextStartTime s \<le> ?c + duration audioBuffer"
        using d by linarith
      show ?thesis
        using Some Inr buf assms(1) up up2 d mono
        by (simp add: playAudio_voice_def Let_def v_emit_def no_overlap_snoc)
    qed
  qed
qed

lemma cursor_playAudio_voice:
  "v_nextStartTime s \<le> v_nextStartTime (playAudio_voice data now s)"
proof -
  have "v_nextStartTime s \<le> max (v_nextStartTime s) now + duration b"
    if "decodeAudioData bytes ctx 24000 1 = Inr b" for bytes ctx b
    using duration_nonneg[OF that] by linarith
  then show ?thesis
    by (simp add: playAudio_voice_def Let_def v_emit_def split: option.splits sum.splits)
qed

lemma sched_ok_playAudio_voice: "sched_ok s \<Longrightarrow> sched_ok (playAudio_voice data now s)"
  using sched_playAudio_voice[of s data now] by (simp add: sched_ok_def)

lemma unscheduled_teardown_voice [simp]:
  "playback_starts (v_effects (stopMicrophone_voice s)) = playback_starts (v_effects s)"
  "playback_starts (v_effects (closeInputContext_voice s)) = playback_starts (v_effects s)"
  "playback_starts (v_effects (stopPlayback_voice s)) = playback_starts (v_effects s)"
  "playback_starts (v_effects (disposeInputContext_voice s)) = playback_starts (v_effects s)"
  "playback_starts (v_effects (disposeOutputContext_voice s)) = playback_starts (v_effects s)"
  "playback_starts (v_effects (closeSession_voice s)) = playback_starts (v_effects s)"
  by (simp_all add: stopMicrophone_voice_def closeInputContext_voice_def
      stopPlayback_voice_def disposeInputContext_voice_def disposeOutputContext_voice_def
      closeSession_voice_def Let_def split: option.splits promise_outcome.splits)

lemma unscheduled_endInterview_voice:
  "playback_starts (v_effects (endInterview_voice outcome s)) = playback_starts (v_effects s)
   \<and> v_nextStartTime (endInterview_voice outcome s) = v_nextStartTime s"
  by (simp add: endInterview_voice_def Let_def split: sum.splits)

lemma unscheduled_unmount_voice:
  "playback_starts (v_effects (unmount_voice s)) = playback_starts (v_effects s)
   \<and> v_nextStartTime (unmount_voice s) = v_nextStartTime s"
  by (simp add: unmount_voice_def)

lemma unscheduled_before_audio:
  "v_effects (if turnComplete message
              then (appendTranscriptions_voice message s)
                     \<lparr>v_pendingTurnUpdates :=
                        Suc (v_pendingTurnUpdates (appendTranscriptions_voice message s))\<rparr>
              else appendTranscriptions_voice message s) = v_effects s"
  "v_nextStartTime (if turnComplete message
                    then (appendTranscriptions_voice message s)
                           \<lparr>v_pendingTurnUpdates :=
                              Suc (v_pendingTurnUpdates (appendTranscriptions_voice message s))\<rparr>
                    else appendTranscriptions_voice message s) = v_nextStartTime s"
  by (simp_all add: appendTranscriptions_voice_def Let_def split: option.splits)

lemma unscheduled_callUpdaters_voice:
  "v_effects (callUpdaters_voice n s) = v_effects s
   \<and> v_nextStartTime (callUpdaters_voice n s) = v_nextStartTime s"
  by (induction n arbitrary: s) (simp_all add: turnComplete_voice_def Let_def)

lemma step_voice_schedule:
  "(sched_ok s \<longrightarrow> sched_ok (step_voice e s))
   \<and> v_nextStartTime s \<le> v_nextStartTime (step_voice e s)"
proof (cases e)
  case (VMessage message now)
  let ?s3 = "if turnComplete message
             then (appendTranscriptions_voice message s)
                    \<lparr>v_pendingTurnUpdates :=
                       Suc (v_pendingTurnUpdates (appendTranscriptions_voice message s))\<rparr>
             else appendTranscriptions_voice message s"
  have ok: "sched_ok s \<Longrightarrow> sched_ok ?s3"
    by (simp only: sched_ok_def unscheduled_before_audio)
  have c: "v_nextStartTime ?s3 = v_nextStartTime s"
    by (rule unscheduled_before_audio)
  have play: "(sched_ok s \<longrightarrow> sched_ok (playAudio_voice data now ?s3))
      \<and> v_nextStartTime s \<le> v_nextStartTime (playAudio_voice data now ?s3)" for data
    using ok sched_ok_playAudio_voice[of ?s3 data now] cursor_playAudio_voice[of ?s3 data now]
    by (simp only: c) blast
  have keep: "(sched_ok s \<longrightarrow> sched_ok ?s3) \<and> v_nextStartTime s \<le> v_nextStartTime ?s3"
    using ok by (simp only: c) simp
  have "step_voice e s = ?s3 \<or> (\<exists>data. step_voice e s = playAudio_voice data now ?s3)"
    unfolding VMessage step_voice.simps onmessage_voice_def Let_def
    by (cases "audioData message") auto
  then show ?thesis
  proof (elim disjE exE)
    assume eq: "step_voice e s = ?s3"
    show ?thesis unfolding eq by (rule keep)
  next
    fix data
    assume eq: "step_voice e s = playAudio_voice data now ?s3"
    show ?thesis unfolding eq by (rule play)
  qed
next
  case VRender
  then show ?thesis
    using unscheduled_callUpdaters_voice[of "v_pendingTurnUpdates s" s]
    by (simp add: sched_ok_def rerender_voice_def)
next
  case (VEndInterview outcome)
  then show ?thesis
    using unscheduled_endInterview_voice[of outcome s] by (simp add: sched_ok_def)
next
  case VUnmount
  then show ?thesis
    using unscheduled_unmount_voice[of s] by (simp add: sched_ok_def)
next
  case (VAudioProcess inputData)
  then show ?thesis
    by (simp add: sched_ok_def onaudioprocess_voice_def v_emit_def
        split: sum.splits option.splits promise_outcome.splits)
qed (simp_all add: sched_ok_def startSession_voice_def onopen_voice_def onended_voice_def
    toggleMute_def v_emit_def Let_def)

lemma run_voice_schedule:
  "(sched_ok s \<longrightarrow> sched_ok (run_voice es s))
   \<and> v_nextStartTime s \<le> v_nextStartTime (run_voice es s)"
proof (induction es arbitrary: s)
  case Nil
  show ?case by simp
next
  case (Cons e es)
  show ?case
    using step_voice_schedule[of s e] Cons[of "step_voice e s"] by auto
qed

lemma sched_ok_init: "sched_ok init_voice"
  by (simp add: sched_ok_def init_voice_def)

lemma decode_empty: "decode [] = Inr []"
  by (simp add: decode_eq atob_def strip_padding_def)

lemma decodeAudioData_empty: "decodeAudioData [] ctx rate n = Inl NotSupportedError"
  by (simp add: decodeAudioData_def new_Int16Array_def createBuffer_def to_unsigned_long_def)

lemma playAudio_voice_started:
  assumes "v_outputAudioContext s = Some ctx" and "decode a = Inr b"
    and "decodeAudioData b ctx 24000 1 = Inr buf" and "0 \<le> now"
  shows "onmessage_voice (audioPayload a) now s =
     s\<lparr>v_nextStartTime := max (v_nextStartTime s) now + duration buf,
       v_audioSources := v_audioSources s @ [(max (v_nextStartTime s) now, duration buf)],
       v_effects := v_effects s @ [PlaybackStart (max (v_nextStartTime s) now) (duration buf)]\<rparr>"
proof -
  have "a \<noteq> []"
  proof
    assume "a = []"
    with assms(2) have "b = []" by (simp add: decode_empty)
    with assms(3) show False by (simp add: decodeAudioData_empty)
  qed
  moreover have "\<not> now < 0" using assms(4) by simp
  ultimately show ?thesis
    using assms(1-3)
    by (simp add: onmessage_voice_def appendTranscriptions_voice_def audioPayload_def
        truthy_def playAudio_voice_def Let_def v_emit_def)
qed

text \<open>
  Claim C6. Two payloads that decode to clips of durations \<open>d1\<close> and \<open>d2\<close> arrive while
  the output context's time is \<open>t0\<close> (a time is never negative). The first clip is
  started at the maximum of \<open>t0\<close> and the cursor, the second at that start plus \<open>d1\<close>.
  Over any events from any state the cursor never decreases, and over any events from
  the start of the screen every started clip has ended when any later one starts.
\<close>

theorem playback_scheduling:
  assumes "v_outputAudioContext s = Some ctx"
    and "decode a1 = Inr b1" and "decodeAudioData b1 ctx 24000 1 = Inr buf1"
    and "decode a2 = Inr b2" and "decodeAudioData b2 ctx 24000 1 = Inr buf2"
    and "0 \<le> t0"
  shows "playback_starts
           (v_effects (run_voice [VMessage (audioPayload a1) t0,
                                  VMessage (audioPayload a2) t0] s))
           = playback_starts (v_effects s)
             @ [(max t0 (v_nextStartTime s), duration buf1),
                (max t0 (v_nextStartTime s) + duration buf1, duration buf2)]
       \<and> v_nextStartTime s' \<le> v_nextStartTime (run_voice es s')
       \<and> no_overlap (playback_starts (v_effects (run_voice es init_voice)))"
proof -
  let ?s1 = "onmessage_voice (audioPayload a1) t0 s"
  have s1: "?s1 = s\<lparr>v_nextStartTime := max (v_nextStartTime s) t0 + duration buf1,
       v_audioSources := v_audioSources s @ [(max (v_nextStartTime s) t0, duration buf1)],
       v_effects := v_effects s @ [PlaybackStart (max (v_nextStartTime s) t0) (duration buf1)]\<rparr>"
    by (rule playAudio_voice_started[OF assms(1,2,3,6)])
  have ctx1: "v_outputAudioContext ?s1 = Some ctx"
    using assms(1) by (simp add: s1)
  have d1: "0 \<le> duration buf1" by (rule duration_nonneg[OF assms(3)])
  have cur: "max (v_nextStartTime ?s1) t0 = max t0 (v_nextStartTime s) + duration buf1"
    using d1 by (simp add: s1 max_def)
  have "playback_starts (v_effects (onmessage_voice (audioPayload a2) t0 ?s1))
      = playback_starts (v_effects s)
        @ [(max t0 (v_nextStartTime s), duration buf1),
           (max t0 (v_nextStartTime s) + duration buf1, duration buf2)]"
    unfolding playAudio_voice_started[OF ctx1 assms(4,5,6)] cur
    by (simp add: s1 max.commute)
  moreover have "no_overlap (playback_starts (v_effects (run_voice es init_voice)))"
    using run_voice_schedule[of init_voice es] sched_ok_init by (simp add: sched_ok_def)
  moreover have "v_nextStartTime s' \<le> v_nextStartTime (run_voice es s')"
    using run_voice_schedule[of s' es] by simp
  ultimately show ?thesis by simp
qed

theorem playback_scheduling_witness:
  "playback_starts
     (v_effects (run_voice [VMessage (audioPayload (utf16 ''AAAAAAAA'')) 5,
                            VMessage (audioPayload (utf16 ''AAA='')) 5] live_voice))
     = [(5, 1 / 8000), (5 + 1 / 8000, 1 / 24000)]"
proof -
  have ctx: "v_outputAudioContext live_voice = Some example_context"
    by (simp add: live_voice_def onopen_voice_def startSession_voice_def Let_def)
  have cursor: "v_nextStartTime live_voice = 0" and none: "v_effects live_voice = []"
    by (simp_all add: live_voice_def onopen_voice_def startSession_voice_def Let_def
        init_voice_def)
  have a1: "decode (utf16 ''AAAAAAAA'') = Inr [0, 0, 0, 0, 0, 0]"
    by (simp add: decode_eq atob_def utf16_def ascii_whitespace_def strip_padding_def
        b64_val_def Let_def)
  have a2: "decode (utf16 ''AAA='') = Inr [0, 0]"
    by (simp add: decode_eq atob_def utf16_def ascii_whitespace_def strip_padding_def
        b64_val_def Let_def)
  obtain buf1 where b1: "decodeAudioData [0, 0, 0, 0, 0, 0] example_context 24000 1 = Inr buf1"
    and "bufferLength buf1 = 3" "sampleRate buf1 = 24000"
    using decodeAudioData_buffer[of "[0, 0, 0, 0, 0, 0]" 1 example_context 24000]
    by (auto simp: example_context_def)
  then have d1: "duration buf1 = 1 / 8000" by (simp add: duration_def)
  obtain buf2 where b2: "decodeAudioData [0, 0] example_context 24000 1 = Inr buf2"
    and "bufferLength buf2 = 1" "sampleRate buf2 = 24000"
    using decodeAudioData_buffer[of "[0, 0]" 1 example_context 24000]
    by (auto simp: example_context_def)
  then have d2: "duration buf2 = 1 / 24000" by (simp add: duration_def)
  have t: "(0 :: rat) \<le> 5" by simp
  from playback_scheduling[OF ctx a1 b1 a2 b2 t]
  show ?thesis by (simp add: cursor none d1 d2)
qed

section \<open>Captured audio: conversion and mute\<close>

lemma sint_ToInt16:
  assumes "- 32768 \<le> k" and "k < 32768"
  shows "sint (word_of_int k :: int16) = k"
proof -
  have "signed_take_bit 15 k = k"
    using assms by (intro signed_take_bit_int_eq_self) simp_all
  then show ?thesis by (simp add: sint_sbintrunc')
qed

text \<open>
  Below full scale the conversion is the truncation of \<open>x * 32768\<close>, with the sign of
  \<open>x\<close>.
\<close>

lemma pcm_sample_in_range:
  assumes "- 1 \<le> x" and "x < 1"
  shows "sint (pcm_sample x) = (if 0 \<le> x then \<lfloor>x * 32768\<rfloor> else \<lceil>x * 32768\<rceil>)"
proof -
  let ?k = "if 0 \<le> x * 32768 then \<lfloor>x * 32768\<rfloor> else \<lceil>x * 32768\<rceil>"
  have lo: "- 32768 \<le> x * 32768" and hi: "x * 32768 < 32768"
    using assms by simp_all
  have "- 32768 \<le> \<lfloor>x * 32768\<rfloor>" using lo by (simp add: le_floor_iff)
  moreover have "\<lfloor>x * 32768\<rfloor> < 32768" using hi by (simp add: floor_less_iff)
  moreover have "- 32768 \<le> \<lceil>x * 32768\<rceil>" using lo by (simp add: le_ceiling_iff)
  moreover have "\<lceil>x * 32768\<rceil> < 32768" if "x * 32768 < 0"
    using that by (simp add: ceiling_less_iff) 
  ultimately have "- 32768 \<le> ?k" "?k < 32768" by auto
  then have "sint (word_of_int ?k :: int16) = ?k" by (rule sint_ToInt16)
  moreover have "(0 \<le> x * 32768) = (0 \<le> x)" by simp
  ultimately show ?thesis by (simp add: pcm_sample_def ToInt16_def)
qed

text \<open>
  Claim C8 fails at full scale. The sample \<open>x = 1\<close> lies in \<open>[-1, 1]\<close>; \<open>1 * 32768\<close> is
  \<open>32768\<close>, one more than the largest 16-bit value, and the store into the
  \<^verbatim>\<open>Int16Array\<close> wraps it to \<open>-32768\<close>: the encoded sample is the most negative value,
  bytes \<open>00 80\<close>, for the most positive input.
\<close>

theorem pcm_sample_full_scale_wraps:
  "sint (pcm_sample 1) = - 32768 \<and> int16_bytes (pcm_sample 1) = [0, 128]
   \<and> sint (pcm_sample (- 1)) = - 32768"
  by (simp add: pcm_sample_def ToInt16_def int16_bytes_def)

text \<open>
  Claim C7 fails for muted frames. After the mute button is pressed \<open>isMuted\<close> is set,
  but \<^verbatim>\<open>onaudioprocess\<close> was installed by the effect of the first render and tests
  the \<open>isMuted\<close> of that render: the captured frame is sent all the same. Pressing the
  button changes neither what is sent nor the session promise nor the effect trace.
\<close>

theorem mute_does_not_gate:
  "v_isMuted (run_voice [VToggleMute] live_voice)
   \<and> v_effects (run_voice [VToggleMute, VAudioProcess [0, 1 / 2]] live_voice)
       = [SendRealtimeInput (utf16 ''AAAAQA=='')]
   \<and> v_effects (onaudioprocess_voice frame (toggleMute s))
       = v_effects (onaudioprocess_voice frame s)
   \<and> v_sessionPromise (toggleMute s) = v_sessionPromise s
   \<and> v_effects (toggleMute s) = v_effects s"
proof -
  have blob: "pcmBlob [0, 1 / 2] = Inr (utf16 ''AAAAQA=='')"
    by (simp add: pcmBlob_def pcm_sample_def ToInt16_def int16_bytes_def encode_eq
        b64_char_def b64_code_def utf16_def)
  have live: "v_sessionPromise live_voice = Some Resolved" "v_effect_isMuted live_voice = False"
    "v_effects live_voice = []" "v_isMuted live_voice = False"
    by (simp_all add: live_voice_def onopen_voice_def startSession_voice_def init_voice_def
        Let_def)
  have "v_effects (onaudioprocess_voice [0, 1 / 2] (toggleMute live_voice))
      = [SendRealtimeInput (utf16 ''AAAAQA=='')]"
    by (simp add: onaudioprocess_voice_def blob toggleMute_def live)
  moreover have "v_effects (onaudioprocess_voice frame (toggleMute s))
      = v_effects (onaudioprocess_voice frame s)"
    by (simp add: onaudioprocess_voice_def toggleMute_def
        split: sum.splits option.splits promise_outcome.splits)
  ultimately show ?thesis by (simp add: toggleMute_def live)
qed

section \<open>A failing report\<close>

text \<open>
  On the push-to-talk screen a failing report leaves the transcript as it was, shows the
  interview view again with the error status and an enabled End Interview button, and a
  second \<^verbatim>\<open>endInterview\<close> whose report succeeds ends the interview with the same cleaned
  transcript.
\<close>

lemma report_failure_ptt_retry:
  "p_transcript (endInterview_ptt (Inl e) s) = p_transcript s
   \<and> render_ptt (endInterview_ptt (Inl e) s)
       = PttSession \<lparr>shownStatus = utf16 ''Error generating report. Please try again.'',
                     shownTranscript = p_transcript s, recordEnabled = True,
                     stopShown = False, endEnabled = True\<rparr>
   \<and> InterviewEnd (cleanTranscript (p_transcript s)) r
       \<in> set (p_effects (endInterview_ptt (Inr r) (endInterview_ptt (Inl e) s)))"
  by (simp add: endInterview_ptt_def Let_def render_ptt_def)

text \<open>
  Claim C9 fails on the voice screen. When the report fails there, the transcript is
  left as it was and the status is set to the error text, but \<open>isGeneratingReport\<close>
  stays set: the component renders only the spinner, which shows neither the status nor
  the End Interview button, so the report cannot be requested again.
\<close>

theorem report_failure_voice_stuck:
  "v_transcript (endInterview_voice (Inl e) s) = v_transcript s
   \<and> v_status (endInterview_voice (Inl e) s)
       = utf16 ''Error generating report. Please try again.''
   \<and> v_isGeneratingReport (endInterview_voice (Inl e) s)
   \<and> render_voice (endInterview_voice (Inl e) s) = AnalyzingSpinner"
  by (simp add: endInterview_voice_def Let_def render_voice_def)

end
